theory Spec2Isabelle
  imports Main "HOL-Library.Sublist" "HOL-Library.AList"
begin

section \<open>Paths: the operations of Node's posix \<open>path\<close> module used by the extractor\<close>

text \<open>
  \<open>Unpack[FIXPATH]\<close> (src/lib/unpack.js, lines 94-98) is written with \<open>String.split\<close>,
  \<open>Array.slice\<close>, \<open>Array.join\<close> and \<open>path.join\<close>. These belong to the JavaScript platform,
  not to the repository; they are modelled here after their documented behaviour
  (\<open>path.join\<close> skips zero-length arguments, joins the others with a slash and normalises
  the result; normalisation drops empty and \<open>.\<close> segments and resolves \<open>..\<close> against the
  segment before it, keeping a leading \<open>..\<close> only on a relative path).
\<close>

text \<open>\<open>s.split(c)\<close>: the pieces of \<open>s\<close> between occurrences of \<open>c\<close>; never the empty list.\<close>

fun split_on :: "char \<Rightarrow> string \<Rightarrow> string list" where
  "split_on c [] = [[]]"
| "split_on c (x # xs) =
     (if x = c then [] # split_on c xs
      else (case split_on c xs of
              [] \<Rightarrow> [[x]]
            | s # ss \<Rightarrow> (x # s) # ss))"

text \<open>\<open>parts.join(sep)\<close>.\<close>

fun join_with :: "string \<Rightarrow> string list \<Rightarrow> string" where
  "join_with sep [] = []"
| "join_with sep [s] = s"
| "join_with sep (s # t # ss) = s @ sep @ join_with sep (t # ss)"

text \<open>\<open>xs.slice(n)\<close>: a negative start counts from the end of the array.\<close>

definition js_slice_from :: "int \<Rightarrow> 'a list \<Rightarrow> 'a list" where
  "js_slice_from n xs =
     (if n < 0 then drop (nat (max (int (length xs) + n) 0)) xs else drop (nat n) xs)"

text \<open>\<open>xs.slice(0, n)\<close>: a negative end counts from the end of the array.\<close>

definition js_slice_to :: "int \<Rightarrow> 'a list \<Rightarrow> 'a list" where
  "js_slice_to n xs =
     (if n < 0 then take (nat (max (int (length xs) + n) 0)) xs else take (nat n) xs)"

text \<open>One segment of the normalisation loop, \<open>res\<close> being the segments kept so far.\<close>

definition norm_step :: "bool \<Rightarrow> string list \<Rightarrow> string \<Rightarrow> string list" where
  "norm_step allowAboveRoot res p =
     (if p = [] \<or> p = ''.'' then res
      else if p = ''..'' then
        (if res \<noteq> [] \<and> last res \<noteq> ''..'' then butlast res
         else if allowAboveRoot then res @ [''..'']
         else res)
      else res @ [p])"

definition normalizeArray :: "string list \<Rightarrow> bool \<Rightarrow> string list" where
  "normalizeArray parts allowAboveRoot = foldl (norm_step allowAboveRoot) [] parts"

definition isAbsolute :: "string \<Rightarrow> bool" where
  "isAbsolute p = (p \<noteq> [] \<and> hd p = CHR ''/'')"

definition path_normalize :: "string \<Rightarrow> string" where
  "path_normalize p =
     (let abs = isAbsolute p;
          trailingSlash = (p \<noteq> [] \<and> last p = CHR ''/'');
          q = join_with ''/'' (normalizeArray (split_on CHR ''/'' p) (\<not> abs));
          q1 = (if q = [] \<and> \<not> abs then ''.'' else q);
          q2 = (if q1 \<noteq> [] \<and> trailingSlash then q1 @ ''/'' else q1)
      in (if abs then ''/'' else []) @ q2)"

definition path_join :: "string list \<Rightarrow> string" where
  "path_join args = path_normalize (join_with ''/'' (filter (\<lambda>a. a \<noteq> []) args))"


section \<open>The extractor's path fix\<close>

text \<open>
  \<open>Unpack[FIXPATH](p)\<close>, src/lib/unpack.js lines 94-98; \<open>cwd\<close> is \<open>this.path\<close> and \<open>strip\<close> is
  \<open>this.strip\<close>, a number (\<open>+options.strip || 0\<close>).
\<close>

definition fixPath :: "string \<Rightarrow> int \<Rightarrow> string \<Rightarrow> string" where
  "fixPath cwd strip p =
     (let p1 = (if strip \<noteq> 0
                then join_with ''/'' (js_slice_from strip (split_on CHR ''/'' p))
                else p)
      in path_join [cwd, path_join [''/'', p1]])"




section \<open>Headers and entries\<close>

text \<open>
  A buffer is a list of bytes; \<open>char\<close> is the type of bytes, so that a buffer and the
  string it decodes to are the same list. The names of the entry types are those of the
  repository's type table.
\<close>

datatype entry_type =
    File | OldFile | ContiguousFile | Link | SymbolicLink | Directory | GNUDumpDir
  | CharacterDevice | BlockDevice | FIFO
  | ExtendedHeader | OldExtendedHeader | GlobalExtendedHeader
  | NextFileHasLongPath | OldGnuLongPath | NextFileHasLongLinkpath
  | UnknownType

text \<open>An extended-header object: keys with string or numeric values, in insertion order.\<close>

datatype pval = PStr string | PNum int

type_synonym ext = "(string \<times> pval) list"

text \<open>The decoded header, with the fields the parser and the extractor read.\<close>

record header =
  h_cksumValid :: bool
  h_path :: string
  h_mode :: int
  h_size :: int
  h_mtime :: int
  h_type :: entry_type
  h_linkpath :: string

text \<open>
  A read entry. \<open>e_onEnd\<close> says that the parser has subscribed to the entry's \<open>end\<close>
  event (\<open>entry.on('end', _ => this[NEXTENTRY]())\<close>).
\<close>

record entry =
  e_header :: header
  e_extended :: "ext option"
  e_globalExtended :: "ext option"
  e_type :: entry_type
  e_meta :: bool
  e_ignore :: bool
  e_path :: string
  e_linkpath :: string
  e_mode :: int
  e_size :: int
  e_mtime :: "int option"
  e_atime :: "int option"
  e_remain :: int
  e_blockRemain :: int
  e_emittedEnd :: bool
  e_onEnd :: bool

datatype js_error =
    ReferenceError string
  | TypeError string
  | Error string
  | ThrownString string

section \<open>The parser (src/unnamed/part\_002)\<close>

datatype pmode = Begin | Body | Meta | Ignore

text \<open>
  \<open>this[UNZIP]\<close>: \<open>null\<close> before the decision, \<open>false\<close> for plain input, or the inflator,
  represented by the chunks written to it so far.
\<close>

datatype unzip_state = Undecided | Plain | Gunzip "string option list"

text \<open>
  What the parser emits, and the calls it makes on its entries, in order. An entry is
  named by its reference.
\<close>

datatype pevent =
    InvalidHeader header
  | MetaEntryTooLarge nat
  | IgnoredEntry nat
  | EntryEv nat
  | Drain
  | MetaEv string
  | EntryWrite nat string
  | EntryEnd nat
  | EndEv

text \<open>
  Entries are objects shared between \<open>this[WRITEENTRY]\<close>, \<open>this[READENTRY]\<close> and
  \<open>this[QUEUE]\<close>; the state holds them in a store indexed by reference, \<open>p_nextId\<close> being
  the next free reference.
\<close>

record pstate =
  p_state :: pmode
  p_buffer :: "string option"
  p_entries :: "nat \<Rightarrow> entry"
  p_nextId :: nat
  p_writeEntry :: "nat option"
  p_readEntry :: "nat option"
  p_queue :: "nat list"
  p_meta :: string
  p_ex :: "ext option"
  p_gex :: "ext option"
  p_ended :: bool
  p_unzip :: unzip_state
  p_events :: "pevent list"

text \<open>
  The parser's options (\<open>maxMetaEntrySize\<close>, \<open>filter\<close>) and the modules it requires
  that are not among the sources: \<open>new Header(chunk)\<close>, \<open>new Entry(header, ex, gex)\<close>,
  \<open>Pax.parse(body, prior, global)\<close>, and the inflator of minizlib. \<open>inflate written
  ended chunk\<close> is the list of data chunks the inflator emits when \<open>chunk\<close> is written to
  it (with \<open>end\<close> when \<open>ended\<close>) after the chunks \<open>written\<close>.
\<close>

record penv =
  hdr :: "string \<Rightarrow> header"
  mkEntry :: "header \<Rightarrow> ext option \<Rightarrow> ext option \<Rightarrow> entry"
  paxParse :: "string \<Rightarrow> ext option \<Rightarrow> bool \<Rightarrow> ext option"
  inflate :: "string option list \<Rightarrow> bool \<Rightarrow> string option \<Rightarrow> string list"
  maxMetaEntrySize :: int
  filter_opt :: "entry \<Rightarrow> bool"

text \<open>A call either returns or throws; the state at the throw is kept with the error.\<close>

type_synonym 'a result = "(js_error \<times> pstate) + 'a"

definition emit_ev :: "pevent \<Rightarrow> pstate \<Rightarrow> pstate" where
  "emit_ev e s = s\<lparr>p_events := p_events s @ [e]\<rparr>"

definition upd_entry :: "nat \<Rightarrow> (entry \<Rightarrow> entry) \<Rightarrow> pstate \<Rightarrow> pstate" where
  "upd_entry i f s = s\<lparr>p_entries := (p_entries s)(i := f (p_entries s i))\<rparr>"

text \<open>
  \<open>Parser[NEXTENTRY]\<close>, lines 144-155. The loop shifts entries off the queue, emits each,
  and stops at the first that has not emitted \<open>end\<close>, subscribing to it.
\<close>

fun nextEntry_loop :: "pstate \<Rightarrow> nat list \<Rightarrow> pstate" where
  "nextEntry_loop s [] = s\<lparr>p_readEntry := None, p_queue := []\<rparr>"
| "nextEntry_loop s (i # q) =
     (let s1 = emit_ev (EntryEv i) (s\<lparr>p_readEntry := Some i, p_queue := q\<rparr>)
      in if \<not> e_emittedEnd (p_entries s1 i)
         then upd_entry i (\<lambda>e. e\<lparr>e_onEnd := True\<rparr>) s1
         else nextEntry_loop s1 q)"

definition nextEntry :: "pstate \<Rightarrow> pstate" where
  "nextEntry s =
     (let s1 = nextEntry_loop s (p_queue s)
      in if p_queue s1 = [] then emit_ev Drain s1 else s1)"

text \<open>
  Modelled from the spec: \<open>entry.write(data)\<close> and \<open>entry.end()\<close> of read-entry.js, which is
  not among the sources. The spec gives an entry \<open>write(buffer)\<close>, \<open>end()\<close>, \<open>onEnd\<close> and
  a boolean \<open>emittedEnd\<close>, and lets the next entry become active only after the active
  one has ended. The parser's call is recorded; the consumer is taken to read an entry
  as it is written, so the first \<open>end()\<close> sets \<open>emittedEnd\<close> and runs the parser's
  subscription at once.
\<close>

definition entry_write :: "nat \<Rightarrow> string \<Rightarrow> pstate \<Rightarrow> pstate" where
  "entry_write i d s = emit_ev (EntryWrite i d) s"

definition entry_end :: "nat \<Rightarrow> pstate \<Rightarrow> pstate" where
  "entry_end i s =
     (let s1 = emit_ev (EntryEnd i) s;
          e = p_entries s1 i
      in if e_emittedEnd e then s1
         else (let s2 = upd_entry i (\<lambda>e. e\<lparr>e_emittedEnd := True\<rparr>) s1
               in if e_onEnd e then nextEntry s2 else s2))"

text \<open>\<open>Parser.consumeHeader\<close>, lines 106-142. Line 119 reads the undeclared name \<open>ignore\<close>.\<close>

definition consumeHeader :: "penv \<Rightarrow> pstate \<Rightarrow> string \<Rightarrow> pstate result" where
  "consumeHeader env s chunk =
     (let header = hdr env chunk
      in if \<not> h_cksumValid header then Inr (emit_ev (InvalidHeader header) s)
         else
           (let i = p_nextId s;
                entry = mkEntry env header (p_ex s) (p_gex s);
                s1 = s\<lparr>p_entries := (p_entries s)(i := entry), p_nextId := Suc i,
                       p_writeEntry := Some i\<rparr>
            in if e_meta entry then
                 (if e_size entry > maxMetaEntrySize env then
                    (let s2 = emit_ev (MetaEntryTooLarge i) s1;
                         s3 = upd_entry i (\<lambda>e. e\<lparr>e_ignore := True\<rparr>) s2
                     in Inl (ReferenceError ''ignore is not defined'', s3))
                  else Inr (s1\<lparr>p_meta := [], p_state := Meta\<rparr>))
               else
                 (let s2 = s1\<lparr>p_ex := None\<rparr>;
                      ign = (e_ignore entry \<or> \<not> filter_opt env entry);
                      s3 = upd_entry i (\<lambda>e. e\<lparr>e_ignore := ign\<rparr>) s2
                  in if ign then
                       Inr ((emit_ev (IgnoredEntry i) s3)
                              \<lparr>p_state := (if e_remain entry \<noteq> 0 then Ignore else Begin)\<rparr>)
                     else
                       (let s4 = (if e_size entry = 0 then entry_end i s3 else s3);
                            s5 = s4\<lparr>p_state := (if e_remain entry \<noteq> 0 then Body else Begin)\<rparr>;
                            s6 = s5\<lparr>p_queue := p_queue s5 @ [i]\<rparr>
                        in Inr (if p_readEntry s6 = None then nextEntry s6 else s6)))))"

text \<open>\<open>Parser.consumeIgnoreBody\<close>, lines 157-166.\<close>

definition consumeIgnoreBody :: "pstate \<Rightarrow> string \<Rightarrow> (pstate \<times> string option) result" where
  "consumeIgnoreBody s chunk =
     (case p_writeEntry s of
        None \<Rightarrow> Inl (TypeError ''Cannot read property blockRemain of null'', s)
      | Some i \<Rightarrow>
          (let entry = p_entries s i
           in if int (length chunk) \<ge> e_blockRemain entry
              then Inr (s\<lparr>p_state := Begin\<rparr>, Some (js_slice_from (e_blockRemain entry) chunk))
              else Inr (upd_entry i
                          (\<lambda>e. e\<lparr>e_blockRemain := e_blockRemain e - int (length chunk)\<rparr>) s,
                        None)))"

text \<open>
  The \<open>emit\<close> argument of \<open>consumeBodyChunk\<close> is one of two closures:
  \<open>data => this[WRITEENTRY].write(data)\<close> or \<open>data => this[META] += data\<close>.
\<close>

datatype sink = ToEntry | ToMeta

definition emit_data :: "sink \<Rightarrow> pstate \<Rightarrow> string \<Rightarrow> pstate result" where
  "emit_data k s d =
     (case k of
        ToMeta \<Rightarrow> Inr (s\<lparr>p_meta := p_meta s @ d\<rparr>)
      | ToEntry \<Rightarrow>
          (case p_writeEntry s of
             None \<Rightarrow> Inl (TypeError ''Cannot read property write of null'', s)
           | Some i \<Rightarrow> Inr (entry_write i d s)))"

text \<open>\<open>Parser.consumeBodyChunk\<close>, lines 174-205.\<close>

definition consumeBodyChunk ::
  "pstate \<Rightarrow> sink \<Rightarrow> string \<Rightarrow> (pstate \<times> string option) result" where
  "consumeBodyChunk s k chunk =
     (case p_writeEntry s of
        None \<Rightarrow> Inl (TypeError ''Cannot read property remain of null'', s)
      | Some i \<Rightarrow>
          (let entry = p_entries s i;
               len = int (length chunk)
           in if len < e_remain entry then
                (case emit_data k s chunk of
                   Inl err \<Rightarrow> Inl err
                 | Inr s1 \<Rightarrow>
                     Inr (upd_entry i (\<lambda>e. e\<lparr>e_remain := e_remain e - len,
                                               e_blockRemain := e_blockRemain e - len\<rparr>) s1,
                          None))
              else if len < e_blockRemain entry then
                (case (if e_remain entry \<noteq> 0
                       then emit_data k s (js_slice_to (e_remain entry) chunk)
                       else Inr s) of
                   Inl err \<Rightarrow> Inl err
                 | Inr s1 \<Rightarrow>
                     Inr (entry_end i
                            (upd_entry i (\<lambda>e. e\<lparr>e_remain := 0,
                                                  e_blockRemain := e_blockRemain e - len\<rparr>) s1),
                          None))
              else
                (case emit_data k s (js_slice_to (e_remain entry) chunk) of
                   Inl err \<Rightarrow> Inl err
                 | Inr s1 \<Rightarrow>
                     (let s2 = entry_end i s1;
                          s3 = s2\<lparr>p_state := Begin, p_writeEntry := None\<rparr>
                      in Inr (s3, Some (js_slice_from (e_blockRemain (p_entries s3 i)) chunk))))))"

definition consumeEntryBody :: "pstate \<Rightarrow> string \<Rightarrow> (pstate \<times> string option) result" where
  "consumeEntryBody s chunk = consumeBodyChunk s ToEntry chunk"

text \<open>\<open>Parser.consumeMeta\<close>, lines 207-239.\<close>

definition set_key :: "string \<Rightarrow> pval \<Rightarrow> ext option \<Rightarrow> ext option" where
  "set_key k v x = Some (AList.update k v (case x of None \<Rightarrow> [] | Some m \<Rightarrow> m))"

definition consumeMeta :: "penv \<Rightarrow> pstate \<Rightarrow> string \<Rightarrow> (pstate \<times> string option) result" where
  "consumeMeta env s chunk =
     (case consumeBodyChunk s ToMeta chunk of
        Inl err \<Rightarrow> Inl err
      | Inr (s1, ret) \<Rightarrow>
          (case p_writeEntry s of
             None \<Rightarrow> Inr (s1, ret)
           | Some i \<Rightarrow>
               if p_writeEntry s1 = None then
                 (let s2 = emit_ev (MetaEv (p_meta s1)) s1;
                      t = e_type (p_entries s2 i)
                  in if t = ExtendedHeader \<or> t = OldExtendedHeader then
                       Inr (s2\<lparr>p_ex := paxParse env (p_meta s2) (p_ex s2) False\<rparr>, ret)
                     else if t = GlobalExtendedHeader then
                       Inr (s2\<lparr>p_gex := paxParse env (p_meta s2) (p_gex s2) True\<rparr>, ret)
                     else if t = NextFileHasLongPath \<or> t = OldGnuLongPath then
                       Inr (s2\<lparr>p_ex := set_key ''path'' (PStr (p_meta s2)) (p_ex s2)\<rparr>, ret)
                     else if t = NextFileHasLongLinkpath then
                       Inr (s2\<lparr>p_ex := set_key ''linkpath'' (PStr (p_meta s2)) (p_ex s2)\<rparr>, ret)
                     else Inl (Error ''unknown meta'', s2))
               else Inr (s1, ret)))"

text \<open>
  The loop of \<open>Parser[CONSUMECHUNK]\<close>, lines 286-309: it runs while the chunk is not
  \<open>null\<close> and holds at least 512 bytes, and returns the state with what is left of the
  chunk.
\<close>

function consume_loop :: "penv \<Rightarrow> pstate \<Rightarrow> string \<Rightarrow> (pstate \<times> string option) result" where
  "consume_loop env s chunk =
     (if length chunk \<ge> 512 then
        (case p_state s of
           Begin \<Rightarrow>
             (case consumeHeader env s (take 512 chunk) of
                Inl err \<Rightarrow> Inl err
              | Inr s1 \<Rightarrow> consume_loop env s1 (drop 512 chunk))
         | Ignore \<Rightarrow>
             (case consumeIgnoreBody s chunk of
                Inl err \<Rightarrow> Inl err
              | Inr (s1, None) \<Rightarrow> Inr (s1, None)
              | Inr (s1, Some c) \<Rightarrow> consume_loop env s1 c)
         | Body \<Rightarrow>
             (case consumeEntryBody s chunk of
                Inl err \<Rightarrow> Inl err
              | Inr (s1, None) \<Rightarrow> Inr (s1, None)
              | Inr (s1, Some c) \<Rightarrow> consume_loop env s1 c)
         | Meta \<Rightarrow>
             (case consumeMeta env s chunk of
                Inl err \<Rightarrow> Inl err
              | Inr (s1, None) \<Rightarrow> Inr (s1, None)
              | Inr (s1, Some c) \<Rightarrow> consume_loop env s1 c))
      else Inr (s, Some chunk))"
  by pat_completeness auto
termination
proof (relation "measure (\<lambda>(env, s, chunk). 2 * length chunk + (if p_state s = Begin then 0 else 1))")
  show "wf (measure (\<lambda>(env, s, chunk). 2 * length chunk + (if p_state s = Begin then 0 else 1)))"
    by simp
next
  fix env :: penv and s :: pstate and chunk :: string and s1 :: pstate
  assume "512 \<le> length chunk" "p_state s = Begin"
  then show "((env, s1, drop 512 chunk), (env, s, chunk))
      \<in> measure (\<lambda>(env, s, chunk). 2 * length chunk + (if p_state s = Begin then 0 else 1))"
    by auto
next
  fix env :: penv and s :: pstate and chunk :: string and x2 x1 c and s1 :: pstate and rest
  assume "512 \<le> length chunk" "p_state s = Body"
    and "consumeEntryBody s chunk = Inr x2" "(s1, rest) = x2" "rest = Some c"
  then have "p_state s1 = Begin \<and> length c \<le> length chunk"
    by (auto simp: consumeEntryBody_def consumeBodyChunk_def Let_def js_slice_from_def
             split: option.splits if_splits sum.splits)
  then show "((env, s1, c), (env, s, chunk))
      \<in> measure (\<lambda>(env, s, chunk). 2 * length chunk + (if p_state s = Begin then 0 else 1))"
    using \<open>p_state s = Body\<close> by simp
next
  fix env :: penv and s :: pstate and chunk :: string and x2 c and s1 :: pstate and rest
  assume "512 \<le> length chunk" "p_state s = Meta"
    and "consumeMeta env s chunk = Inr x2" "(s1, rest) = x2" "rest = Some c"
  then have "p_state s1 = Begin \<and> length c \<le> length chunk"
    by (auto simp: consumeMeta_def consumeBodyChunk_def Let_def js_slice_from_def
             emit_ev_def
             split: option.splits if_splits sum.splits prod.splits)
  then show "((env, s1, c), (env, s, chunk))
      \<in> measure (\<lambda>(env, s, chunk). 2 * length chunk + (if p_state s = Begin then 0 else 1))"
    using \<open>p_state s = Meta\<close> by simp
next
  fix env :: penv and s :: pstate and chunk :: string and x2 c and s1 :: pstate and rest
  assume "512 \<le> length chunk" "p_state s = Ignore"
    and "consumeIgnoreBody s chunk = Inr x2" "(s1, rest) = x2" "rest = Some c"
  then have "p_state s1 = Begin \<and> length c \<le> length chunk"
    by (auto simp: consumeIgnoreBody_def Let_def js_slice_from_def
             split: option.splits if_splits)
  then show "((env, s1, c), (env, s, chunk))
      \<in> measure (\<lambda>(env, s, chunk). 2 * length chunk + (if p_state s = Begin then 0 else 1))"
    using \<open>p_state s = Ignore\<close> by simp
qed

declare consume_loop.simps [simp del]

text \<open>\<open>Parser[CONSUMECHUNK]\<close>, lines 280-318; \<open>None\<close> is a \<open>null\<close> or \<open>undefined\<close> chunk.\<close>

definition consumeChunk :: "penv \<Rightarrow> pstate \<Rightarrow> string option \<Rightarrow> pstate result" where
  "consumeChunk env s chunk =
     (let (s1, c1) = (case (chunk, p_buffer s) of
                        (Some c, Some b) \<Rightarrow> (s\<lparr>p_buffer := None\<rparr>, Some (b @ c))
                      | _ \<Rightarrow> (s, chunk))
      in case (case c1 of None \<Rightarrow> Inr (s1, None) | Some c \<Rightarrow> consume_loop env s1 c) of
           Inl err \<Rightarrow> Inl err
         | Inr (s2, c2) \<Rightarrow>
             Inr (if c2 \<noteq> None \<and> c2 \<noteq> Some [] then s2\<lparr>p_buffer := c2\<rparr>
                  else if p_ended s2 then emit_ev EndEv s2
                  else s2))"

text \<open>The first two bytes of a gzip stream, and the comparison loop of lines 252-255.\<close>

definition gzipHeader :: string where
  "gzipHeader = [CHR 0x1F, CHR 0x8B]"

definition detect :: "string \<Rightarrow> unzip_state" where
  "detect chunk =
     foldl (\<lambda>u i. if u = Undecided \<and> chunk ! i \<noteq> gzipHeader ! i then Plain else u)
           Undecided [0 ..< length gzipHeader]"

text \<open>The inflator's \<open>data\<close> listener runs \<open>CONSUMECHUNK\<close> on every chunk it emits.\<close>

fun consume_all :: "penv \<Rightarrow> pstate \<Rightarrow> string list \<Rightarrow> pstate result" where
  "consume_all env s [] = Inr s"
| "consume_all env s (d # ds) =
     (case consumeChunk env s (Some d) of
        Inl err \<Rightarrow> Inl err
      | Inr s1 \<Rightarrow> consume_all env s1 ds)"

definition write_ret :: "pstate \<Rightarrow> bool" where
  "write_ret s =
     (case p_state s of
        Begin \<Rightarrow> True
      | Ignore \<Rightarrow> True
      | Meta \<Rightarrow> True
      | Body \<Rightarrow> p_queue s = [])"

text \<open>\<open>Parser.write\<close>, lines 241-278.\<close>

definition parser_write :: "penv \<Rightarrow> pstate \<Rightarrow> string option \<Rightarrow> (pstate \<times> bool) result" where
  "parser_write env s chunk =
     (let first =
            (case chunk of
               None \<Rightarrow> Inr (s, chunk)
             | Some c \<Rightarrow>
                 if p_unzip s = Undecided then
                   (let c1 = (case p_buffer s of Some b \<Rightarrow> b @ c | None \<Rightarrow> c);
                        s1 = (case p_buffer s of Some b \<Rightarrow> s\<lparr>p_buffer := None\<rparr> | None \<Rightarrow> s)
                    in if length c1 < length gzipHeader
                       then Inl (s1\<lparr>p_buffer := Some c1\<rparr>)
                       else Inr (s1\<lparr>p_unzip := (case detect c1 of
                                                    Undecided \<Rightarrow> Gunzip []
                                                  | u \<Rightarrow> u)\<rparr>,
                                 Some c1))
                 else Inr (s, chunk))
      in case first of
           Inl s1 \<Rightarrow> Inr (s1, True)
         | Inr (s1, chunk1) \<Rightarrow>
             (case (case p_unzip s1 of
                      Gunzip written \<Rightarrow>
                        consume_all env (s1\<lparr>p_unzip := Gunzip (written @ [chunk1])\<rparr>)
                          (inflate env written (p_ended s1) chunk1)
                    | _ \<Rightarrow> consumeChunk env s1 chunk1) of
                Inl err \<Rightarrow> Inl err
              | Inr s2 \<Rightarrow> Inr (s2, write_ret s2)))"

text \<open>\<open>Parser.end\<close>, lines 320-323.\<close>

definition end_parser :: "penv \<Rightarrow> pstate \<Rightarrow> string option \<Rightarrow> (pstate \<times> bool) result" where
  "end_parser env s chunk = parser_write env (s\<lparr>p_ended := True\<rparr>) chunk"

text \<open>The state the constructor leaves, lines 87-104.\<close>

definition empty_entry :: entry where
  "empty_entry =
     \<lparr>e_header = \<lparr>h_cksumValid = False, h_path = [], h_mode = 0, h_size = 0, h_mtime = 0,
                  h_type = UnknownType, h_linkpath = []\<rparr>,
      e_extended = None, e_globalExtended = None, e_type = UnknownType, e_meta = False,
      e_ignore = False, e_path = [], e_linkpath = [], e_mode = 0, e_size = 0,
      e_mtime = None, e_atime = None, e_remain = 0, e_blockRemain = 0,
      e_emittedEnd = False, e_onEnd = False\<rparr>"

definition new_parser :: pstate where
  "new_parser =
     \<lparr>p_state = Begin, p_buffer = None, p_entries = (\<lambda>_. empty_entry), p_nextId = 0,
      p_writeEntry = None, p_readEntry = None, p_queue = [], p_meta = [],
      p_ex = None, p_gex = None, p_ended = False, p_unzip = Undecided, p_events = []\<rparr>"

text \<open>Feeding a list of chunks, one \<open>write\<close> each; a throw ends the run.\<close>

fun write_all :: "penv \<Rightarrow> pstate \<Rightarrow> string list \<Rightarrow> pstate result" where
  "write_all env s [] = Inr s"
| "write_all env s (c # cs) =
     (case parser_write env s (Some c) of
        Inl err \<Rightarrow> Inl err
      | Inr (s1, _) \<Rightarrow> write_all env s1 cs)"

text \<open>The bytes written to entry \<open>i\<close>, in order.\<close>

fun body_of :: "nat \<Rightarrow> pevent list \<Rightarrow> string" where
  "body_of i [] = []"
| "body_of i (EntryWrite j d # evs) = (if i = j then d @ body_of i evs else body_of i evs)"
| "body_of i (_ # evs) = body_of i evs"

text \<open>The number of \<open>end()\<close> calls on entry \<open>i\<close>.\<close>

fun ends_of :: "nat \<Rightarrow> pevent list \<Rightarrow> nat" where
  "ends_of i [] = 0"
| "ends_of i (EntryEnd j # evs) = (if i = j then Suc (ends_of i evs) else ends_of i evs)"
| "ends_of i (_ # evs) = ends_of i evs"


text \<open>
  An entry without the fields that the parser and the entry's own stream set after the
  constructor has returned; \<open>built_from e0 e\<close> says that the entry \<open>e\<close> is the object
  \<open>e0\<close> that the constructor returned, up to those fields.
\<close>

definition entry_core :: "entry \<Rightarrow> entry" where
  "entry_core e = e\<lparr>e_ignore := False, e_emittedEnd := False, e_onEnd := False\<rparr>"




text \<open>Two states agree on the compression decision and on whether the input has ended.\<close>

definition same_mode :: "pstate \<Rightarrow> pstate \<Rightarrow> bool" where
  "same_mode s s' = (p_unzip s' = p_unzip s \<and> p_ended s' = p_ended s)"

section \<open>The header, the entry and the Pax body, from the specification\<close>

text \<open>
  header.js, read-entry.js and pax.js are not among the sources. The parser above takes
  them as parameters; the definitions of this section give the instances used to run it
  on concrete archives.
\<close>

definition field :: "nat \<Rightarrow> nat \<Rightarrow> string \<Rightarrow> string" where
  "field off n block = take n (drop off block)"

definition byte :: "char \<Rightarrow> int" where
  "byte c = int (of_char c)"

text \<open>
  Modelled from the spec: the field codec of header.js, section 4.1. A string field ends
  at the first NUL or at the end of the field.
\<close>

definition read_string :: "string \<Rightarrow> string" where
  "read_string f = takeWhile (\<lambda>c. c \<noteq> CHR 0x00) f"

definition is_octal :: "char \<Rightarrow> bool" where
  "is_octal c = (48 \<le> byte c \<and> byte c \<le> 55)"

text \<open>
  Modelled from the spec: an octal-number field of header.js, section 4.1. The leading
  octal digits are read in base 8; when the high bit of the first byte is set, the bytes
  after it are a big-endian two's-complement integer.
\<close>

definition read_number :: "string \<Rightarrow> int" where
  "read_number f =
     (if f \<noteq> [] \<and> byte (hd f) \<ge> 128 then
        (let r = tl f;
             v = foldl (\<lambda>a c. 256 * a + byte c) 0 r
         in if r \<noteq> [] \<and> byte (hd r) \<ge> 128 then v - 256 ^ length r else v)
      else foldl (\<lambda>a c. 8 * a + (byte c - 48)) 0 (takeWhile is_octal f))"

text \<open>
  Modelled from the spec: the checksum of header.js, section 4.2. The stored value must
  equal the unsigned or the signed sum of the header's bytes, the checksum field itself
  (offset 148, size 8) counted as ASCII spaces.
\<close>

definition cksum_unsigned :: "string \<Rightarrow> int" where
  "cksum_unsigned block =
     sum_list (map byte (take 148 block)) + 8 * 32 + sum_list (map byte (drop 156 block))"

definition sbyte :: "char \<Rightarrow> int" where
  "sbyte c = (if byte c \<ge> 128 then byte c - 256 else byte c)"

definition cksum_signed :: "string \<Rightarrow> int" where
  "cksum_signed block =
     sum_list (map sbyte (take 148 block)) + 8 * 32 + sum_list (map sbyte (drop 156 block))"

text \<open>Modelled from the spec: the type code table of types.js, section 6.\<close>

definition type_of_code :: "string \<Rightarrow> entry_type" where
  "type_of_code k =
     (if k = ''0'' \<or> k = [] then File
      else if k = ''1'' then Link
      else if k = ''2'' then SymbolicLink
      else if k = ''3'' then CharacterDevice
      else if k = ''4'' then BlockDevice
      else if k = ''5'' then Directory
      else if k = ''6'' then FIFO
      else if k = ''7'' then ContiguousFile
      else if k = ''g'' then GlobalExtendedHeader
      else if k = ''x'' then ExtendedHeader
      else if k = ''D'' then GNUDumpDir
      else if k = ''K'' then NextFileHasLongLinkpath
      else if k = ''L'' then NextFileHasLongPath
      else if k = ''N'' then OldGnuLongPath
      else if k = ''M'' then OldFile
      else UnknownType)"

text \<open>
  Modelled from the spec: the decoding constructor \<open>new Header(block)\<close> of header.js, with
  the offsets of section 6, for the fields of the record \<open>header\<close>. The path is the
  100-byte path field; the prefix of the ustar and xstar fieldsets is left out.
\<close>

definition header_decode :: "string \<Rightarrow> header" where
  "header_decode block =
     \<lparr>h_cksumValid = (read_number (field 148 8 block) = cksum_unsigned block
                      \<or> read_number (field 148 8 block) = cksum_signed block),
      h_path = read_string (field 0 100 block),
      h_mode = read_number (field 100 8 block),
      h_size = read_number (field 124 12 block),
      h_mtime = read_number (field 136 12 block),
      h_type = type_of_code (read_string (field 156 1 block)),
      h_linkpath = read_string (field 157 100 block)\<rparr>"

text \<open>
  Modelled from the spec: the constructor \<open>new Entry(header, ex, gex)\<close> of read-entry.js,
  section 3. \<open>remain\<close> is the unread body, \<open>blockRemain\<close> is \<open>remain\<close> rounded up to the
  next 512, \<open>meta\<close> marks the Pax and GNU long-name entries, an entry of unknown type is
  ignored, and the attributes are the header's, overridden by the global and then by the
  per-entry extended header.
\<close>

definition is_meta_type :: "entry_type \<Rightarrow> bool" where
  "is_meta_type t =
     (t = ExtendedHeader \<or> t = OldExtendedHeader \<or> t = GlobalExtendedHeader
      \<or> t = NextFileHasLongPath \<or> t = OldGnuLongPath \<or> t = NextFileHasLongLinkpath)"

definition ext_get :: "ext option \<Rightarrow> string \<Rightarrow> pval option" where
  "ext_get x k = (case x of None \<Rightarrow> None | Some m \<Rightarrow> map_of m k)"

definition over_str :: "string \<Rightarrow> ext option \<Rightarrow> ext option \<Rightarrow> string \<Rightarrow> string" where
  "over_str k ex gex base =
     (case ext_get ex k of
        Some (PStr v) \<Rightarrow> v
      | _ \<Rightarrow> (case ext_get gex k of Some (PStr v) \<Rightarrow> v | _ \<Rightarrow> base))"

definition over_num :: "string \<Rightarrow> ext option \<Rightarrow> ext option \<Rightarrow> int \<Rightarrow> int" where
  "over_num k ex gex base =
     (case ext_get ex k of
        Some (PNum v) \<Rightarrow> v
      | _ \<Rightarrow> (case ext_get gex k of Some (PNum v) \<Rightarrow> v | _ \<Rightarrow> base))"

definition over_opt :: "string \<Rightarrow> ext option \<Rightarrow> ext option \<Rightarrow> int option \<Rightarrow> int option" where
  "over_opt k ex gex base =
     (case ext_get ex k of
        Some (PNum v) \<Rightarrow> Some v
      | _ \<Rightarrow> (case ext_get gex k of Some (PNum v) \<Rightarrow> Some v | _ \<Rightarrow> base))"

definition read_entry :: "header \<Rightarrow> ext option \<Rightarrow> ext option \<Rightarrow> entry" where
  "read_entry h ex gex =
     \<lparr>e_header = h,
      e_extended = ex,
      e_globalExtended = gex,
      e_type = h_type h,
      e_meta = is_meta_type (h_type h),
      e_ignore = (h_type h = UnknownType),
      e_path = over_str ''path'' ex gex (h_path h),
      e_linkpath = over_str ''linkpath'' ex gex (h_linkpath h),
      e_mode = h_mode h,
      e_size = over_num ''size'' ex gex (h_size h),
      e_mtime = over_opt ''mtime'' ex gex (Some (h_mtime h)),
      e_atime = over_opt ''atime'' ex gex None,
      e_remain = h_size h,
      e_blockRemain = 512 * ((h_size h + 511) div 512),
      e_emittedEnd = False,
      e_onEnd = False\<rparr>"

text \<open>
  Modelled from the spec: \<open>Pax.parse(body, prior, global)\<close> of pax.js, sections 4.3 and 6.
  The body is a sequence of lines \<open><length> <key>=<value>\n\<close>, the length counting the
  whole line; each line is merged into the prior object, a later key winning; the sizes
  and ids are numbers, every other value is kept as a string.
\<close>

definition is_digit :: "char \<Rightarrow> bool" where
  "is_digit c = (48 \<le> byte c \<and> byte c \<le> 57)"

definition dec_val :: "string \<Rightarrow> nat" where
  "dec_val ds = foldl (\<lambda>a c. 10 * a + (of_char c - 48)) 0 ds"

fun pax_lines :: "nat \<Rightarrow> string \<Rightarrow> (string \<times> string) list" where
  "pax_lines 0 s = []"
| "pax_lines (Suc fuel) s =
     (let ds = takeWhile is_digit s;
          n = dec_val ds;
          kv = drop (length ds + 1) (butlast (take n s));
          key = takeWhile (\<lambda>c. c \<noteq> CHR ''='') kv
      in if ds = [] \<or> n = 0 \<or> length s < n then []
         else (key, drop (length key + 1) kv) # pax_lines fuel (drop n s))"

definition pax_value :: "string \<Rightarrow> string \<Rightarrow> pval" where
  "pax_value k v =
     (if k \<in> set [''size'', ''uid'', ''gid'', ''dev'', ''ino'', ''nlink'']
      then PNum (int (dec_val v)) else PStr v)"

definition pax_parse :: "string \<Rightarrow> ext option \<Rightarrow> bool \<Rightarrow> ext option" where
  "pax_parse body prior global =
     Some (foldl (\<lambda>m (k, v). AList.update k (pax_value k v) m)
             (case prior of None \<Rightarrow> [] | Some m \<Rightarrow> m)
             (pax_lines (length body) body))"

text \<open>
  The environment of the examples: the instances above, the default options of the
  constructor (a limit of 1 MiB and a filter that accepts every entry), and an inflator
  that emits nothing, since no example is compressed.
\<close>

definition default_env :: penv where
  "default_env =
     \<lparr>hdr = header_decode, mkEntry = read_entry, paxParse = pax_parse,
      inflate = (\<lambda>written ended chunk. []),
      maxMetaEntrySize = 1024 * 1024,
      filter_opt = (\<lambda>e. True)\<rparr>"

text \<open>
  Example header blocks: the path, zero padding up to the size field, the size as 11
  octal digits, the checksum as 6 octal digits with NUL and space, the type code, and
  zero padding to 512 bytes.
\<close>

definition raw_block :: "string \<Rightarrow> string \<Rightarrow> string \<Rightarrow> string \<Rightarrow> string" where
  "raw_block path sz ck code =
     path @ replicate (124 - length path) (CHR 0x00)
     @ sz @ [CHR 0x00]
     @ replicate 12 (CHR 0x00)
     @ ck
     @ code
     @ replicate 355 (CHR 0x00)"

text \<open>
  A file \<open>foo.txt\<close> of 1000 bytes; a Pax header announcing a body of 2000000 bytes; a
  GNU long-name header with a body of 9 bytes; two empty files \<open>a\<close> and \<open>b\<close>; and a block
  of zeros.
\<close>

definition block_foo :: string where
  "block_foo = raw_block ''foo.txt'' ''00000001750'' (''003037'' @ [CHR 0x00, CHR '' '']) ''0''"

definition block_bigmeta :: string where
  "block_bigmeta =
     raw_block ''PaxHeader/foo.txt'' ''00007502200'' (''005013'' @ [CHR 0x00, CHR '' '']) ''x''"

definition block_longname :: string where
  "block_longname =
     raw_block ''././@LongLink'' ''00000000011'' (''003566'' @ [CHR 0x00, CHR '' '']) ''L''"

definition block_a :: string where
  "block_a = raw_block ''a'' ''00000000000'' (''001641'' @ [CHR 0x00, CHR '' '']) ''0''"

definition block_b :: string where
  "block_b = raw_block ''b'' ''00000000000'' (''001642'' @ [CHR 0x00, CHR '' '']) ''0''"

definition null_block :: string where
  "null_block = replicate 512 (CHR 0x00)"

text \<open>
  The archive of the chunking example, in two pieces: the header of \<open>foo.txt\<close> with the
  first 600 bytes of its body, and the other 400 bytes with the padding of 24 zeros.
\<close>

definition chunk1 :: string where
  "chunk1 = block_foo @ replicate 600 (CHR ''a'')"

definition chunk2 :: string where
  "chunk2 = replicate 400 (CHR ''a'') @ replicate 24 (CHR 0x00)"


definition meta_state :: pstate where
  "meta_state =
     new_parser
       \<lparr>p_state := Meta,
        p_entries := (\<lambda>_. empty_entry)
          (0 := read_entry (header_decode block_longname) None None),
        p_nextId := 1, p_writeEntry := Some 0, p_unzip := Plain\<rparr>"


section \<open>The extractor (src/lib/unpack.js)\<close>

text \<open>
  The callback that \<open>Unpack[MKPARENT]\<close> hands to \<open>mkdir\<close> on behalf of \<open>Unpack[FILE]\<close>,
  lines 100-120, as data: it holds the entry whose file is to be created.
\<close>

datatype mkdir_cb = ParentOfFile entry

text \<open>\<open>madeDirs[path]\<close>: \<open>true\<close>, or the callbacks waiting for the directory.\<close>

datatype dir_state = Made | Waiting "mkdir_cb list"

datatype fs_op =
    FsMkdirp string int
  | FsCreateWriteStream string int
  | FsUtimes string int int

datatype uevent = UError string

record ustate =
  u_madeDirs :: "(string \<times> dir_state) list"
  u_fs :: "fs_op list"
  u_events :: "uevent list"

record uopts =
  u_path :: string
  u_strip :: int
  u_dmode :: int





text \<open>The \<open>close\<close> listener of lines 115-118.\<close>

definition file_closed :: "uopts \<Rightarrow> entry \<Rightarrow> ustate \<Rightarrow> ustate" where
  "file_closed opts e s =
     (case (e_atime e, e_mtime e) of
        (Some a, Some m) \<Rightarrow>
          s\<lparr>u_fs := u_fs s @ [FsUtimes (fixPath (u_path opts) (u_strip opts) (e_path e)) a m]\<rparr>
      | _ \<Rightarrow> s)"




section \<open>The write entry (src/unnamed/part\_000)\<close>

text \<open>
  part\_001 is an earlier copy of the same class: its \<open>FILE\<close>, \<open>HARDLINK\<close> and
  \<open>HEADER\<close> are those modelled here, its \<open>READ\<close> callback is \<open>ONREAD\<close> written inline, and
  only its block length differs (see \<open>blockLen_old\<close>).
\<close>

datatype stat_kind =
  KFile | KDirectory | KSymbolicLink | KBlockDevice | KFIFO | KCharacterDevice | KOther

record stat =
  st_kind :: stat_kind
  st_nlink :: nat
  st_dev :: nat
  st_ino :: nat
  st_size :: int
  st_mode :: int
  st_uid :: int
  st_gid :: int
  st_mtime :: int
  st_atime :: int
  st_ctime :: int

text \<open>The object handed to \<open>new Header\<close>, and the one handed to \<open>new Pax\<close>.\<close>

record hdr_args =
  a_path :: string
  a_linkpath :: "string option"
  a_mode :: int
  a_uid :: int
  a_gid :: int
  a_size :: int
  a_mtime :: int
  a_type :: entry_type
  a_uname :: string
  a_atime :: int
  a_ctime :: int

record pax_args =
  x_header :: hdr_args
  x_path :: string
  x_linkpath :: "string option"
  x_dev :: nat
  x_ino :: nat
  x_nlink :: nat

text \<open>What the entry writes to its own stream, and the calls it makes on \<open>fs\<close>.\<close>

datatype wchunk = WPax pax_args | WHeader hdr_args | WData string

datatype fs_call =
    FsLstat string
  | FsReadlink string
  | FsOpen string
  | FsRead nat nat int
  | FsClose nat

datatype wevent = WError string | WStat stat

text \<open>The arguments of the \<open>READ\<close> whose callback is outstanding: fd, buffer length, pos, remain, blockRemain.\<close>

datatype pending = NoRead | PendingRead nat nat int int int

record wentry =
  w_path :: string
  w_linkCache :: "(string \<times> string) list"
  w_statCache :: "(string \<times> stat) list"
  w_stat :: stat
  w_type :: entry_type
  w_linkpath :: "string option"
  w_out :: "wchunk list"
  w_ended :: bool
  w_events :: "wevent list"
  w_fs :: "fs_call list"
  w_pending :: pending

text \<open>
  What the class takes from outside the sources: whether the header built from the
  given fields needs a Pax header (\<open>header.needPax\<close> of header.js), and
  \<open>process.env.USER\<close>.
\<close>

record wenv =
  needPax :: "hdr_args \<Rightarrow> bool"
  env_user :: string

definition maxReadSize :: int where
  "maxReadSize = 1024 * 1024"

text \<open>\<open>getType\<close>, lines 226-233.\<close>

definition getType :: "stat \<Rightarrow> entry_type" where
  "getType st =
     (case st_kind st of
        KFile \<Rightarrow> File
      | KDirectory \<Rightarrow> Directory
      | KSymbolicLink \<Rightarrow> SymbolicLink
      | KBlockDevice \<Rightarrow> BlockDevice
      | KFIFO \<Rightarrow> FIFO
      | KCharacterDevice \<Rightarrow> CharacterDevice
      | KOther \<Rightarrow> UnknownType)"

text \<open>A number as JavaScript prints it in \<open>dev + ':' + ino\<close>: its decimal digits.\<close>

fun dec_str :: "nat \<Rightarrow> string" where
  "dec_str n = (if n < 10 then [char_of (48 + n)] else dec_str (n div 10) @ [char_of (48 + n mod 10)])"

declare dec_str.simps [simp del]

definition linkKey :: "stat \<Rightarrow> string" where
  "linkKey st = dec_str (st_dev st) @ '':'' @ dec_str (st_ino st)"

definition w_write :: "wchunk \<Rightarrow> wentry \<Rightarrow> wentry" where
  "w_write c w = w\<lparr>w_out := w_out w @ [c]\<rparr>"

definition w_end :: "wentry \<Rightarrow> wentry" where
  "w_end w = w\<lparr>w_ended := True\<rparr>"

text \<open>\<open>WriteEntry[HEADER]\<close>, lines 63-93.\<close>

definition header_args :: "wenv \<Rightarrow> wentry \<Rightarrow> hdr_args" where
  "header_args env w =
     \<lparr>a_path = w_path w,
      a_linkpath = w_linkpath w,
      a_mode = st_mode (w_stat w),
      a_uid = st_uid (w_stat w),
      a_gid = st_gid (w_stat w),
      a_size = st_size (w_stat w),
      a_mtime = st_mtime (w_stat w),
      a_type = w_type w,
      a_uname = env_user env,
      a_atime = st_atime (w_stat w),
      a_ctime = st_ctime (w_stat w)\<rparr>"

definition we_HEADER :: "wenv \<Rightarrow> wentry \<Rightarrow> wentry" where
  "we_HEADER env w =
     (let h = header_args env w;
          w1 = (if needPax env h
                then w_write (WPax \<lparr>x_header = h, x_path = w_path w, x_linkpath = w_linkpath w,
                                     x_dev = st_dev (w_stat w), x_ino = st_ino (w_stat w),
                                     x_nlink = st_nlink (w_stat w)\<rparr>) w
                else w)
      in w_write (WHeader h) w1)"

text \<open>
  \<open>WriteEntry[HARDLINK]\<close>, lines 114-120. \<open>this.stat\<close> is the object stored in the stat
  cache under \<open>this.path\<close> by \<open>ONLSTAT\<close>, so setting its size changes the cached stat too.
\<close>

definition we_HARDLINK :: "wenv \<Rightarrow> string \<Rightarrow> wentry \<Rightarrow> wentry" where
  "we_HARDLINK env linkpath w =
     (let st = (w_stat w)\<lparr>st_size := 0\<rparr>;
          w1 = w\<lparr>w_type := Link, w_linkpath := Some linkpath, w_stat := st,
                 w_statCache := AList.update (w_path w) st (w_statCache w)\<rparr>
      in w_end (we_HEADER env w1))"

text \<open>\<open>WriteEntry[FILE]\<close> with \<open>OPENFILE\<close>, lines 122-144, up to the call of \<open>fs.open\<close>.\<close>

definition we_FILE :: "wenv \<Rightarrow> wentry \<Rightarrow> wentry" where
  "we_FILE env w =
     (let cached = (if st_nlink (w_stat w) > 1
                    then map_of (w_linkCache w) (linkKey (w_stat w)) else None)
      in case cached of
           Some linkpath \<Rightarrow> we_HARDLINK env linkpath w
         | None \<Rightarrow>
             (let w1 = (if st_nlink (w_stat w) > 1
                        then w\<lparr>w_linkCache :=
                                 AList.update (linkKey (w_stat w)) (w_path w) (w_linkCache w)\<rparr>
                        else w);
                  w2 = we_HEADER env w1
              in if st_size (w_stat w2) = 0 then w_end w2
                 else w2\<lparr>w_fs := w_fs w2 @ [FsOpen (w_path w2)]\<rparr>))"

text \<open>\<open>WriteEntry[DIRECTORY]\<close>, \<open>[SYMLINK]\<close> and \<open>[ONREADLINK]\<close>, lines 95-112.\<close>

definition we_DIRECTORY :: "wenv \<Rightarrow> wentry \<Rightarrow> wentry" where
  "we_DIRECTORY env w = w_end (we_HEADER env w)"

definition we_SYMLINK :: "wentry \<Rightarrow> wentry" where
  "we_SYMLINK w = w\<lparr>w_fs := w_fs w @ [FsReadlink (w_path w)]\<rparr>"

definition readlink_done :: "wenv \<Rightarrow> string + string \<Rightarrow> wentry \<Rightarrow> wentry" where
  "readlink_done env r w =
     (case r of
        Inl er \<Rightarrow> w\<lparr>w_events := w_events w @ [WError er]\<rparr>
      | Inr linkpath \<Rightarrow> w_end (we_HEADER env (w\<lparr>w_linkpath := Some linkpath\<rparr>)))"

text \<open>\<open>WriteEntry[PROCESS]\<close>, lines 53-61.\<close>

definition we_PROCESS :: "wenv \<Rightarrow> wentry \<Rightarrow> wentry" where
  "we_PROCESS env w =
     (if w_type w = File then we_FILE env w
      else if w_type w = Directory then we_DIRECTORY env w
      else if w_type w = SymbolicLink then we_SYMLINK w
      else w_end w)"

text \<open>
  The constructor followed by \<open>WriteEntry[ONLSTAT]\<close>, lines 25-51, for a path whose stat
  is \<open>st\<close>, from the stat cache or from \<open>fs.lstat\<close>.
\<close>

definition onlstat ::
  "wenv \<Rightarrow> string \<Rightarrow> (string \<times> string) list \<Rightarrow> (string \<times> stat) list \<Rightarrow> stat \<Rightarrow> wentry" where
  "onlstat env path linkCache statCache st =
     we_PROCESS env
       \<lparr>w_path = path, w_linkCache = linkCache,
        w_statCache = AList.update path st statCache,
        w_stat = st, w_type = getType st, w_linkpath = None,
        w_out = [], w_ended = False, w_events = [WStat st], w_fs = [], w_pending = NoRead\<rparr>"

text \<open>\<open>WriteEntry[READ]\<close>, lines 153-159, up to the call of \<open>fs.read\<close>.\<close>

definition we_READ :: "nat \<Rightarrow> nat \<Rightarrow> int \<Rightarrow> int \<Rightarrow> int \<Rightarrow> wentry \<Rightarrow> wentry" where
  "we_READ fd buflen pos remain blockRemain w =
     w\<lparr>w_fs := w_fs w @ [FsRead fd buflen pos],
       w_pending := PendingRead fd buflen pos remain blockRemain\<rparr>"

text \<open>
  The callback of \<open>fs.open\<close> with \<open>WriteEntry[ONOPENFILE]\<close>, lines 139-151;
  \<open>Math.ceil(size / 512)\<close> is \<open>- ((- size) div 512)\<close>.
\<close>

definition blockLen :: "int \<Rightarrow> int" where
  "blockLen sz = 512 * (- ((- sz) div 512))"

text \<open>part\_001, line 114: \<open>512 * Math.floor(1 + size / 512)\<close>.\<close>

definition blockLen_old :: "int \<Rightarrow> int" where
  "blockLen_old sz = 512 * (1 + sz div 512)"

definition open_done :: "string + nat \<Rightarrow> wentry \<Rightarrow> wentry" where
  "open_done r w =
     (case r of
        Inl er \<Rightarrow> w\<lparr>w_events := w_events w @ [WError er]\<rparr>
      | Inr fd \<Rightarrow>
          (let bl = blockLen (st_size (w_stat w));
               bufLen = min bl maxReadSize
           in we_READ fd (nat bufLen) 0 (st_size (w_stat w)) bl w))"

text \<open>
  The loop of lines 169-173, which pads the last read with zeros: it returns the
  number of bytes in the buffer and the adjusted \<open>remain\<close>.
\<close>

function zero_fill :: "nat \<Rightarrow> int \<Rightarrow> nat \<Rightarrow> int \<Rightarrow> int \<Rightarrow> int \<times> int" where
  "zero_fill buflen blockRemain i bytesRead remain =
     (if i < buflen \<and> bytesRead < blockRemain
      then zero_fill buflen blockRemain (Suc i) (bytesRead + 1) (remain + 1)
      else (bytesRead, remain))"
  by pat_completeness auto
termination
  by (relation "measure (\<lambda>(buflen, blockRemain, i, bytesRead, remain). buflen - i)") auto

declare zero_fill.simps [simp del]

text \<open>
  \<open>WriteEntry[ONREAD]\<close>, lines 165-187; \<open>d\<close> holds the bytes that \<open>fs.read\<close> put into the
  buffer, so \<open>bytesRead\<close> is its length.
\<close>

definition we_ONREAD ::
  "nat \<Rightarrow> nat \<Rightarrow> int \<Rightarrow> int \<Rightarrow> int \<Rightarrow> string \<Rightarrow> wentry \<Rightarrow> (js_error \<times> wentry) + wentry" where
  "we_ONREAD fd buflen pos remain blockRemain d w =
     (let bytesRead = int (length d)
      in if bytesRead = 0 then Inl (ThrownString ''wat'', w)
         else
           (let (bytesRead1, remain1) =
                  (if bytesRead = remain
                   then zero_fill buflen blockRemain (length d) bytesRead remain
                   else (bytesRead, remain));
                w1 = w_write (WData (d @ replicate (nat (bytesRead1 - bytesRead)) (CHR 0x00))) w;
                remain2 = remain1 - bytesRead1;
                blockRemain2 = blockRemain - bytesRead1;
                pos2 = pos + bytesRead1
            in if remain2 = 0 then
                 (if blockRemain2 < 0 then Inl (Error ''RangeError: invalid size'', w1)
                  else
                    (let w2 = (if blockRemain2 \<noteq> 0
                               then w_write (WData (replicate (nat blockRemain2) (CHR 0x00))) w1
                               else w1)
                     in Inr ((w_end w2)\<lparr>w_fs := w_fs w2 @ [FsClose fd]\<rparr>)))
               else Inr (we_READ fd buflen pos2 remain2 blockRemain2 w1)))"

text \<open>
  The callback of \<open>fs.read\<close>, lines 154-158: \<open>r\<close> is the error, or the bytes read, at most
  as many as the buffer holds.
\<close>

definition read_done :: "string + string \<Rightarrow> wentry \<Rightarrow> (js_error \<times> wentry) + wentry" where
  "read_done r w =
     (case w_pending w of
        NoRead \<Rightarrow> Inr w
      | PendingRead fd buflen pos remain blockRemain \<Rightarrow>
          (case r of
             Inl er \<Rightarrow>
               Inr (w\<lparr>w_pending := NoRead, w_fs := w_fs w @ [FsClose fd],
                      w_events := w_events w @ [WError er]\<rparr>)
           | Inr d \<Rightarrow>
               we_ONREAD fd buflen pos remain blockRemain (take buflen d) (w\<lparr>w_pending := NoRead\<rparr>)))"

text \<open>
  Entries created one after the other with shared caches, as the archive is written:
  each path is given with its stat, and the caches left by one entry go to the next.
\<close>

fun pack_seq ::
  "wenv \<Rightarrow> (string \<times> string) list \<Rightarrow> (string \<times> stat) list \<Rightarrow> (string \<times> stat) list
     \<Rightarrow> wentry list" where
  "pack_seq env lc sc [] = []"
| "pack_seq env lc sc ((p, st) # es) =
     (let w = onlstat env p lc sc st
      in w # pack_seq env (w_linkCache w) (w_statCache w) es)"

text \<open>An entry carries its body when it is a file whose header has the file's size.\<close>

definition encoded_as_file :: "wenv \<Rightarrow> stat \<Rightarrow> wentry \<Rightarrow> bool" where
  "encoded_as_file env st w =
     (w_type w = File \<and> w_linkpath w = None
      \<and> last (w_out w) = WHeader (header_args env w)
      \<and> a_size (header_args env w) = st_size st
      \<and> (if st_size st = 0 then w_ended w \<and> w_fs w = []
          else \<not> w_ended w \<and> w_fs w = [FsOpen (w_path w)]))"

definition encoded_as_link :: "wenv \<Rightarrow> string \<Rightarrow> wentry \<Rightarrow> bool" where
  "encoded_as_link env target w =
     (w_type w = Link \<and> w_linkpath w = Some target
      \<and> last (w_out w) = WHeader (header_args env w)
      \<and> a_type (header_args env w) = Link
      \<and> a_linkpath (header_args env w) = Some target
      \<and> a_size (header_args env w) = 0
      \<and> w_ended w \<and> w_fs w = [])"

text \<open>
  The examples: no header needs a Pax header, the user name is empty, and a regular file
  is given by its link count, device, inode and size.
\<close>

definition wenv0 :: wenv where
  "wenv0 = \<lparr>needPax = (\<lambda>h. False), env_user = []\<rparr>"

definition file_stat :: "nat \<Rightarrow> nat \<Rightarrow> nat \<Rightarrow> int \<Rightarrow> stat" where
  "file_stat nlink dev ino sz =
     \<lparr>st_kind = KFile, st_nlink = nlink, st_dev = dev, st_ino = ino, st_size = sz,
      st_mode = 420, st_uid = 0, st_gid = 0, st_mtime = 0, st_atime = 0, st_ctime = 0\<rparr>"

text \<open>Two stats name the same file for the link cache.\<close>

definition shares :: "stat \<Rightarrow> stat \<Rightarrow> bool" where
  "shares s t =
     (st_kind s = KFile \<and> st_nlink s > 1 \<and> st_dev s = st_dev t \<and> st_ino s = st_ino t)"

section \<open>Properties of the path fix\<close>

lemma split_on_not_Nil [simp]: "split_on c s \<noteq> []"
  by (induction s) (auto split: list.splits)




lemma split_on_append_plain:
  "c \<notin> set a \<Longrightarrow> split_on c (a @ b) = (a @ hd (split_on c b)) # tl (split_on c b)"
  by (induction a) (auto split: list.splits)
























section \<open>Properties of the extractor\<close>





section \<open>Properties of the write entry\<close>

lemma dec_val_snoc: "dec_val (xs @ [c]) = 10 * dec_val xs + (of_char c - 48)"
  by (simp add: dec_val_def)

lemma dec_val_dec_str: "dec_val (dec_str n) = n"
proof (induction n rule: dec_str.induct)
  case (1 n)
  show ?case
  proof (cases "n < 10")
    case True
    then show ?thesis by (subst dec_str.simps) (simp add: dec_val_def)
  next
    case False
    have m: "(48 + n mod 10) mod 256 = 48 + n mod 10" by simp
    have "dec_val (dec_str n) = 10 * dec_val (dec_str (n div 10)) + n mod 10"
      using False by (subst dec_str.simps) (simp add: dec_val_snoc m)
    then show ?thesis using 1 False by simp
  qed
qed

lemma dec_str_inj: "dec_str a = dec_str b \<Longrightarrow> a = b"
  by (metis dec_val_dec_str)

lemma dec_str_digits: "c \<in> set (dec_str n) \<Longrightarrow> (of_char c :: nat) < 58"
proof (induction n rule: dec_str.induct)
  case (1 n)
  show ?case
  proof (cases "n < 10")
    case True
    then have "dec_str n = [char_of (48 + n)]" by (subst dec_str.simps) simp
    then show ?thesis using 1(2) True by simp
  next
    case False
    then have "dec_str n = dec_str (n div 10) @ [char_of (48 + n mod 10)]"
      by (subst dec_str.simps) simp
    then have "c \<in> set (dec_str (n div 10)) \<or> c = char_of (48 + n mod 10)"
      using 1(2) by auto
    then show ?thesis
    proof
      assume "c \<in> set (dec_str (n div 10))"
      then show ?thesis using 1(1) False by simp
    next
      have m: "(48 + n mod 10) mod 256 = 48 + n mod 10" by simp
      assume "c = char_of (48 + n mod 10)"
      then show ?thesis by (simp add: m)
    qed
  qed
qed

lemma colon_not_in_dec_str: "CHR '':'' \<notin> set (dec_str n)"
  using dec_str_digits [of "CHR '':''" n] by auto

lemma append_sep_eq:
  "c \<notin> set a \<Longrightarrow> c \<notin> set a' \<Longrightarrow> a @ c # b = a' @ c # b' \<Longrightarrow> a = a' \<and> b = b'"
proof (induction a arbitrary: a')
  case Nil
  then show ?case by (cases a') auto
next
  case (Cons x a)
  then show ?case by (cases a') auto
qed

lemma linkKey_eq_iff:
  "linkKey s = linkKey t \<longleftrightarrow> st_dev s = st_dev t \<and> st_ino s = st_ino t"
proof
  assume "linkKey s = linkKey t"
  then have "dec_str (st_dev s) @ CHR '':'' # dec_str (st_ino s)
           = dec_str (st_dev t) @ CHR '':'' # dec_str (st_ino t)"
    by (simp add: linkKey_def)
  then have "dec_str (st_dev s) = dec_str (st_dev t) \<and> dec_str (st_ino s) = dec_str (st_ino t)"
    by (rule append_sep_eq [OF colon_not_in_dec_str colon_not_in_dec_str])
  then show "st_dev s = st_dev t \<and> st_ino s = st_ino t"
    by (auto dest: dec_str_inj)
next
  assume "st_dev s = st_dev t \<and> st_ino s = st_ino t"
  then show "linkKey s = linkKey t" by (simp add: linkKey_def)
qed


lemmas we_defs = onlstat_def we_PROCESS_def getType_def we_FILE_def we_HARDLINK_def
  we_HEADER_def w_write_def w_end_def header_args_def we_DIRECTORY_def we_SYMLINK_def Let_def

lemma onlstat_cached:
  assumes "st_kind st = KFile" "st_nlink st > 1" "map_of lc (linkKey st) = Some lp"
  shows "encoded_as_link env lp (onlstat env p lc sc st)
         \<and> w_linkCache (onlstat env p lc sc st) = lc"
  using assms by (simp add: we_defs encoded_as_link_def)

lemma onlstat_fresh:
  assumes "st_kind st = KFile" "st_nlink st > 1" "map_of lc (linkKey st) = None"
  shows "encoded_as_file env st (onlstat env p lc sc st)
         \<and> w_linkCache (onlstat env p lc sc st) = AList.update (linkKey st) p lc"
  using assms by (simp add: we_defs encoded_as_file_def)

lemma onlstat_cache_keeps:
  "map_of lc k = Some v \<Longrightarrow> map_of (w_linkCache (onlstat env q lc sc s)) k = Some v"
  by (auto simp: we_defs update_conv' split: stat_kind.splits option.splits)

lemma onlstat_cache_other:
  "\<not> shares s t \<Longrightarrow>
   map_of (w_linkCache (onlstat env q lc sc s)) (linkKey t) = map_of lc (linkKey t)"
  by (auto simp: we_defs update_conv' shares_def linkKey_eq_iff
           split: stat_kind.splits option.splits)

lemma pack_seq_links:
  "map_of lc (linkKey st) = Some p \<Longrightarrow> j < length post \<Longrightarrow> shares (snd (post ! j)) st
   \<Longrightarrow> encoded_as_link env p (pack_seq env lc sc post ! j)"
proof (induction post arbitrary: lc sc j)
  case Nil
  then show ?case by simp
next
  case (Cons x post)
  obtain q s where x: "x = (q, s)" by (cases x)
  show ?case
  proof (cases j)
    case 0
    then have sh: "shares s st" using Cons.prems x by simp
    then have "linkKey s = linkKey st" by (simp add: shares_def linkKey_eq_iff)
    then have "encoded_as_link env p (onlstat env q lc sc s)"
      using sh Cons.prems(1) onlstat_cached [of s lc p env q sc] by (simp add: shares_def)
    then show ?thesis using 0 x by (simp add: Let_def)
  next
    case (Suc j')
    have "map_of (w_linkCache (onlstat env q lc sc s)) (linkKey st) = Some p"
      using Cons.prems(1) by (rule onlstat_cache_keeps)
    then have "encoded_as_link env p
        (pack_seq env (w_linkCache (onlstat env q lc sc s)) (w_statCache (onlstat env q lc sc s))
           post ! j')"
      using Cons.prems Suc by (intro Cons.IH) auto
    then show ?thesis using Suc x by (simp add: Let_def)
  qed
qed

lemma pack_seq_first:
  assumes "st_kind st = KFile" "st_nlink st > 1"
  shows "\<forall>(q, s)\<in>set pre. \<not> shares s st \<Longrightarrow> map_of lc (linkKey st) = None \<Longrightarrow>
     encoded_as_file env st (pack_seq env lc sc (pre @ (p, st) # post) ! length pre)
     \<and> (\<forall>j<length post. shares (snd (post ! j)) st \<longrightarrow>
            encoded_as_link env p
              (pack_seq env lc sc (pre @ (p, st) # post) ! Suc (length pre + j)))"
proof (induction pre arbitrary: lc sc)
  case Nil
  have f: "encoded_as_file env st (onlstat env p lc sc st)"
    and c: "w_linkCache (onlstat env p lc sc st) = AList.update (linkKey st) p lc"
    using onlstat_fresh [OF assms Nil(2)] by auto
  have "map_of (w_linkCache (onlstat env p lc sc st)) (linkKey st) = Some p"
    by (simp add: c update_conv')
  then show ?case using f by (auto simp: Let_def intro: pack_seq_links)
next
  case (Cons x pre)
  obtain q s where x: "x = (q, s)" by (cases x)
  have "map_of (w_linkCache (onlstat env q lc sc s)) (linkKey st) = None"
    using Cons.prems x onlstat_cache_other [of s st env q lc sc] by simp
  then show ?case using Cons.IH Cons.prems(1) x by (simp add: Let_def)
qed

text \<open>
  Claim C3, as the source has it. For a file whose link count exceeds 1, the entry is a
  hard link to the cached path, with size 0 and no body, whenever the link cache holds
  the key \<open><dev>:<ino>\<close>, whether or not the cached path differs from the entry's own
  path, and the cache is left as it is; otherwise the key is recorded with the entry's
  path and the entry is a file with its body. Consequently, when the key is not cached
  beforehand, then of the entries created in sequence that share the device and inode of
  the first such entry, the first is a file with its body and every later one is a hard
  link to the path of the first.
\<close>

theorem hardlink_encoding:
  assumes "st_kind st = KFile" and "st_nlink st > 1"
  shows "(case map_of lc (linkKey st) of
            Some lp \<Rightarrow>
              encoded_as_link env lp (onlstat env p lc sc st)
              \<and> w_linkCache (onlstat env p lc sc st) = lc
          | None \<Rightarrow>
              encoded_as_file env st (onlstat env p lc sc st)
              \<and> w_linkCache (onlstat env p lc sc st) = AList.update (linkKey st) p lc)
         \<and> ((\<forall>(q, s)\<in>set pre. \<not> shares s st) \<and> map_of lc (linkKey st) = None \<longrightarrow>
              encoded_as_file env st (pack_seq env lc sc (pre @ (p, st) # post) ! length pre)
              \<and> (\<forall>j<length post. shares (snd (post ! j)) st \<longrightarrow>
                     encoded_as_link env p
                       (pack_seq env lc sc (pre @ (p, st) # post) ! Suc (length pre + j))))"
proof -
  have "case map_of lc (linkKey st) of
            Some lp \<Rightarrow>
              encoded_as_link env lp (onlstat env p lc sc st)
              \<and> w_linkCache (onlstat env p lc sc st) = lc
          | None \<Rightarrow>
              encoded_as_file env st (onlstat env p lc sc st)
              \<and> w_linkCache (onlstat env p lc sc st) = AList.update (linkKey st) p lc"
    using onlstat_cached [OF assms] onlstat_fresh [OF assms]
    by (simp split: option.splits)
  then show ?thesis using pack_seq_first [OF assms] by blast
qed

theorem hardlink_encoding_witness:
  "st_kind (file_stat 2 1 2 5) = KFile \<and> st_nlink (file_stat 2 1 2 5) > 1
   \<and> map_of [] (linkKey (file_stat 2 1 2 5)) = None
   \<and> shares (file_stat 2 1 2 5) (file_stat 2 1 2 5)
   \<and> encoded_as_file wenv0 (file_stat 2 1 2 5)
        (pack_seq wenv0 [] [] [(''a'', file_stat 2 1 2 5), (''b'', file_stat 2 1 2 5)] ! 0)
   \<and> encoded_as_link wenv0 ''a''
        (pack_seq wenv0 [] [] [(''a'', file_stat 2 1 2 5), (''b'', file_stat 2 1 2 5)] ! 1)
   \<and> w_linkCache (onlstat wenv0 ''a'' [] [] (file_stat 2 1 2 5)) = [(''1:2'', ''a'')]"
proof -
  have h1: "st_kind (file_stat 2 1 2 5) = KFile" by (simp add: file_stat_def)
  have h2: "st_nlink (file_stat 2 1 2 5) > 1" by (simp add: file_stat_def)
  have sh: "shares (file_stat 2 1 2 5) (file_stat 2 1 2 5)"
    by (simp add: shares_def file_stat_def)
  have k: "linkKey (file_stat 2 1 2 5) = ''1:2''" by code_simp
  show ?thesis
    using h1 h2 sh k
      hardlink_encoding [OF h1 h2, where lc = "[]" and pre = "[]" and p = "''a''"
        and post = "[(''b'', file_stat 2 1 2 5)]" and env = wenv0 and sc = "[]"]
    by (auto simp: Let_def)
qed

text \<open>
  Claim C3 as stated fails where the cached path is the entry's own path: the claim
  has such an entry encoded as a file with its body, the source makes it a hard link to
  itself.
\<close>

theorem hardlink_same_path_counterexample:
  "encoded_as_link wenv0 ''a'' (onlstat wenv0 ''a'' [(''1:2'', ''a'')] [] (file_stat 2 1 2 5))
   \<and> \<not> encoded_as_file wenv0 (file_stat 2 1 2 5)
         (onlstat wenv0 ''a'' [(''1:2'', ''a'')] [] (file_stat 2 1 2 5))"
proof -
  have k: "linkKey (file_stat 2 1 2 5) = ''1:2''" by code_simp
  have c: "map_of [(''1:2'', ''a'')] (linkKey (file_stat 2 1 2 5)) = Some ''a''"
    unfolding k by simp
  have l: "encoded_as_link wenv0 ''a''
             (onlstat wenv0 ''a'' [(''1:2'', ''a'')] [] (file_stat 2 1 2 5))"
    using onlstat_cached [OF _ _ c, of wenv0 "''a''" "[]"] by (simp add: file_stat_def)
  then show ?thesis by (auto simp: encoded_as_link_def encoded_as_file_def)
qed

text \<open>
  Claim C8. A read that returns no bytes makes \<open>ONREAD\<close> throw the string \<open>wat\<close>, whatever
  the state: nothing is emitted on the error channel, where a failed read is reported.
  So it is for a file of 10 bytes whose first read returns nothing: the callback of
  \<open>fs.read\<close> throws, and the entry has emitted no error and has not ended.
\<close>

theorem zero_read_throws:
  "we_ONREAD fd buflen pos remain blockRemain [] w = Inl (ThrownString ''wat'', w)
   \<and> (case read_done (Inr [])
              (open_done (Inr 3) (onlstat wenv0 ''f'' [] [] (file_stat 1 1 2 10))) of
         Inl (err, w') \<Rightarrow>
           err = ThrownString ''wat'' \<and> w_events w' = [WStat (file_stat 1 1 2 10)]
           \<and> \<not> w_ended w' \<and> w_fs w' = [FsOpen ''f'', FsRead 3 512 0]
       | Inr w' \<Rightarrow> False)
   \<and> read_done (Inl ''EIO'')
         (open_done (Inr 3) (onlstat wenv0 ''f'' [] [] (file_stat 1 1 2 10)))
       = Inr ((open_done (Inr 3) (onlstat wenv0 ''f'' [] [] (file_stat 1 1 2 10)))
               \<lparr>w_pending := NoRead,
                w_fs := [FsOpen ''f'', FsRead 3 512 0, FsClose 3],
                w_events := [WStat (file_stat 1 1 2 10), WError ''EIO'']\<rparr>)"
  by (simp add: we_ONREAD_def read_done_def open_done_def we_READ_def we_defs file_stat_def
        wenv0_def blockLen_def maxReadSize_def)

section \<open>The example blocks\<close>

lemma sum_bytes_zeros [simp]: "sum_list (map byte (replicate n (CHR 0x00))) = 0"
  by (induction n) (auto simp: byte_def)

lemma sum_sbytes_zeros [simp]: "sum_list (map sbyte (replicate n (CHR 0x00))) = 0"
  by (induction n) (auto simp: sbyte_def byte_def)

lemma read_string_padded:
  "CHR 0x00 \<notin> set p \<Longrightarrow> read_string (p @ replicate n (CHR 0x00)) = p"
proof (induction p)
  case Nil
  then show ?case by (cases n) (simp_all add: read_string_def)
next
  case (Cons a p)
  then show ?case by (auto simp: read_string_def)
qed

lemma read_number_zeros: "read_number (replicate n (CHR 0x00)) = 0"
  by (cases n) (simp_all add: read_number_def byte_def is_octal_def)

lemma byte_zero [simp]: "byte (CHR 0x00) = 0" "sbyte (CHR 0x00) = 0"
  by (simp_all add: sbyte_def byte_def)

lemma field_path:
  assumes "length p \<le> 100" "length sz = 11" "length ck = 8" "length code = 1"
  shows "field 0 100 (raw_block p sz ck code) = p @ replicate (100 - length p) (CHR 0x00)"
  using assms by (simp add: field_def raw_block_def min_def)

lemma field_mode:
  assumes "length p \<le> 100" "length sz = 11" "length ck = 8" "length code = 1"
  shows "field 100 8 (raw_block p sz ck code) = replicate 8 (CHR 0x00)"
  using assms by (simp add: field_def raw_block_def min_def)

lemma field_size:
  assumes "length p \<le> 100" "length sz = 11" "length ck = 8" "length code = 1"
  shows "field 124 12 (raw_block p sz ck code) = sz @ [CHR 0x00]"
  using assms by (simp add: field_def raw_block_def)

lemma field_mtime:
  assumes "length p \<le> 100" "length sz = 11" "length ck = 8" "length code = 1"
  shows "field 136 12 (raw_block p sz ck code) = replicate 12 (CHR 0x00)"
  using assms by (simp add: field_def raw_block_def)

lemma field_cksum:
  assumes "length p \<le> 100" "length sz = 11" "length ck = 8" "length code = 1"
  shows "field 148 8 (raw_block p sz ck code) = ck"
  using assms by (simp add: field_def raw_block_def)

lemma field_type:
  assumes "length p \<le> 100" "length sz = 11" "length ck = 8" "length code = 1"
  shows "field 156 1 (raw_block p sz ck code) = code"
  using assms by (simp add: field_def raw_block_def)

lemma field_linkpath:
  assumes "length p \<le> 100" "length sz = 11" "length ck = 8" "length code = 1"
  shows "field 157 100 (raw_block p sz ck code) = replicate 100 (CHR 0x00)"
  using assms by (simp add: field_def raw_block_def)

lemma length_raw_block:
  assumes "length p \<le> 100" "length sz = 11" "length ck = 8" "length code = 1"
  shows "length (raw_block p sz ck code) = 512"
  using assms by (simp add: raw_block_def)

lemma cksum_unsigned_raw_block:
  assumes "length p \<le> 100" "length sz = 11" "length ck = 8" "length code = 1"
  shows "cksum_unsigned (raw_block p sz ck code)
         = sum_list (map byte p) + sum_list (map byte (sz)) + 256
           + sum_list (map byte code)"
  using assms by (simp add: cksum_unsigned_def raw_block_def sum_list_replicate)

lemma cksum_signed_raw_block:
  assumes "length p \<le> 100" "length sz = 11" "length ck = 8" "length code = 1"
  shows "cksum_signed (raw_block p sz ck code)
         = sum_list (map sbyte p) + sum_list (map sbyte (sz)) + 256
           + sum_list (map sbyte code)"
  using assms by (simp add: cksum_signed_def raw_block_def sum_list_replicate)

lemma decode_raw_block:
  assumes "length p \<le> 100" "length sz = 11" "length ck = 8" "length code = 1" "CHR 0x00 \<notin> set p"
    "CHR 0x00 \<notin> set code"
  shows "header_decode (raw_block p sz ck code) =
     \<lparr>h_cksumValid =
        (read_number ck = sum_list (map byte p) + sum_list (map byte (sz)) + 256
                            + sum_list (map byte code)
         \<or> read_number ck = sum_list (map sbyte p) + sum_list (map sbyte (sz))
                            + 256 + sum_list (map sbyte code)),
      h_path = p,
      h_mode = 0,
      h_size = read_number (sz @ [CHR 0x00]),
      h_mtime = 0,
      h_type = type_of_code code,
      h_linkpath = []\<rparr>"
proof -
  have rs: "read_string code = code"
    using read_string_padded [of code 0] assms(6) by simp
  have rl: "read_string (replicate 100 (CHR 0x00)) = []"
    using read_string_padded [of "[]" 100] by simp
  show ?thesis
    unfolding header_decode_def
    by (simp only: field_path [OF assms(1-4)] field_mode [OF assms(1-4)]
          field_size [OF assms(1-4)] field_mtime [OF assms(1-4)] field_cksum [OF assms(1-4)]
          field_type [OF assms(1-4)] field_linkpath [OF assms(1-4)]
          cksum_unsigned_raw_block [OF assms(1-4)] cksum_signed_raw_block [OF assms(1-4)]
          read_number_zeros
          read_string_padded [OF assms(5)] rs rl)
qed

lemma decode_block_foo:
  "header_decode block_foo = \<lparr>h_cksumValid = True, h_path = ''foo.txt'', h_mode = 0,
     h_size = 1000, h_mtime = 0, h_type = File, h_linkpath = []\<rparr>"
proof -
  have 1: "read_number (''003037'' @ [CHR 0x00, CHR '' '']) = 1567" by code_simp
  have 2: "sum_list (map byte ''foo.txt'') + sum_list (map byte ''00000001750'') + 256
             + sum_list (map byte ''0'') = 1567" by code_simp
  have 3: "read_number (''00000001750'' @ [CHR 0x00]) = 1000" by code_simp
  have 4: "type_of_code ''0'' = File" by code_simp
  show ?thesis
    unfolding block_foo_def
    by (subst decode_raw_block) (simp_all only: 1 2 3 4, simp_all)
qed

lemma decode_block_bigmeta:
  "header_decode block_bigmeta = \<lparr>h_cksumValid = True, h_path = ''PaxHeader/foo.txt'', h_mode = 0,
     h_size = 2000000, h_mtime = 0, h_type = ExtendedHeader, h_linkpath = []\<rparr>"
proof -
  have 1: "read_number (''005013'' @ [CHR 0x00, CHR '' '']) = 2571" by code_simp
  have 2: "sum_list (map byte ''PaxHeader/foo.txt'') + sum_list (map byte ''00007502200'') + 256
             + sum_list (map byte ''x'') = 2571" by code_simp
  have 3: "read_number (''00007502200'' @ [CHR 0x00]) = 2000000" by code_simp
  have 4: "type_of_code ''x'' = ExtendedHeader" by code_simp
  show ?thesis
    unfolding block_bigmeta_def
    by (subst decode_raw_block) (simp_all only: 1 2 3 4, simp_all)
qed

lemma decode_block_longname:
  "header_decode block_longname = \<lparr>h_cksumValid = True, h_path = ''././@LongLink'', h_mode = 0,
     h_size = 9, h_mtime = 0, h_type = NextFileHasLongPath, h_linkpath = []\<rparr>"
proof -
  have 1: "read_number (''003566'' @ [CHR 0x00, CHR '' '']) = 1910" by code_simp
  have 2: "sum_list (map byte ''././@LongLink'') + sum_list (map byte ''00000000011'') + 256
             + sum_list (map byte ''L'') = 1910" by code_simp
  have 3: "read_number (''00000000011'' @ [CHR 0x00]) = 9" by code_simp
  have 4: "type_of_code ''L'' = NextFileHasLongPath" by code_simp
  show ?thesis
    unfolding block_longname_def
    by (subst decode_raw_block) (simp_all only: 1 2 3 4, simp_all)
qed



lemma decode_null_block: "\<not> h_cksumValid (header_decode null_block)"
proof -
  have 1: "field 148 8 null_block = replicate 8 (CHR 0x00)"
    by (simp add: field_def null_block_def)
  have 2: "cksum_unsigned null_block = 256" "cksum_signed null_block = 256"
    by (simp_all add: cksum_unsigned_def cksum_signed_def null_block_def sum_list_replicate)
  show ?thesis by (simp add: header_decode_def 1 2 read_number_zeros)
qed

lemma block_lengths [simp]:
  "length block_foo = 512" "length block_bigmeta = 512" "length block_longname = 512"
  "length block_a = 512" "length block_b = 512" "length null_block = 512"
  by (simp_all add: block_foo_def block_bigmeta_def block_longname_def block_a_def block_b_def
        null_block_def length_raw_block)

lemma block_foo_start: "take 2 (block_foo @ r) = ''fo''"
  by (simp add: block_foo_def raw_block_def)

lemma block_longname_start: "take 2 (block_longname @ r) = ''./''"
  by (simp add: block_longname_def raw_block_def)

lemma block_bigmeta_start: "take 2 (block_bigmeta @ r) = ''Pa''"
  by (simp add: block_bigmeta_def raw_block_def)

lemma null_block_start: "take 2 (null_block @ r) = [CHR 0x00, CHR 0x00]"
  by (simp add: null_block_def numeral_eq_Suc)

section \<open>Properties of the parser\<close>

lemma body_of_append [simp]: "body_of i (xs @ ys) = body_of i xs @ body_of i ys"
  by (induction i xs rule: body_of.induct) auto

lemma ends_of_append [simp]: "ends_of i (xs @ ys) = ends_of i xs + ends_of i ys"
  by (induction i xs rule: ends_of.induct) auto

lemma entry_core_upd [simp]:
  "entry_core (e\<lparr>e_ignore := a\<rparr>) = entry_core e"
  "entry_core (e\<lparr>e_emittedEnd := b\<rparr>) = entry_core e"
  "entry_core (e\<lparr>e_onEnd := c\<rparr>) = entry_core e"
  by (simp_all add: entry_core_def)

lemma nextEntry_loop_frame [simp]:
  "p_state (nextEntry_loop s q) = p_state s"
  "p_writeEntry (nextEntry_loop s q) = p_writeEntry s"
  "p_buffer (nextEntry_loop s q) = p_buffer s"
  "p_meta (nextEntry_loop s q) = p_meta s"
  "p_ex (nextEntry_loop s q) = p_ex s"
  "p_gex (nextEntry_loop s q) = p_gex s"
  "p_ended (nextEntry_loop s q) = p_ended s"
  "p_unzip (nextEntry_loop s q) = p_unzip s"
  "p_nextId (nextEntry_loop s q) = p_nextId s"
  by (induction q arbitrary: s; simp add: emit_ev_def upd_entry_def Let_def)+

lemma nextEntry_loop_entries [simp]:
  "e_remain (p_entries (nextEntry_loop s q) j) = e_remain (p_entries s j)"
  "e_blockRemain (p_entries (nextEntry_loop s q) j) = e_blockRemain (p_entries s j)"
  "e_type (p_entries (nextEntry_loop s q) j) = e_type (p_entries s j)"
  "e_emittedEnd (p_entries (nextEntry_loop s q) j) = e_emittedEnd (p_entries s j)"
  "entry_core (p_entries (nextEntry_loop s q) j) = entry_core (p_entries s j)"
  by (induction q arbitrary: s; simp add: emit_ev_def upd_entry_def Let_def)+

lemma nextEntry_loop_events [simp]:
  "body_of i (p_events (nextEntry_loop s q)) = body_of i (p_events s)"
  "ends_of i (p_events (nextEntry_loop s q)) = ends_of i (p_events s)"
  by (induction q arbitrary: s; simp add: emit_ev_def upd_entry_def Let_def)+

lemma nextEntry_frame [simp]:
  "p_state (nextEntry s) = p_state s"
  "p_writeEntry (nextEntry s) = p_writeEntry s"
  "p_buffer (nextEntry s) = p_buffer s"
  "p_meta (nextEntry s) = p_meta s"
  "p_ex (nextEntry s) = p_ex s"
  "p_gex (nextEntry s) = p_gex s"
  "p_ended (nextEntry s) = p_ended s"
  "p_unzip (nextEntry s) = p_unzip s"
  "p_nextId (nextEntry s) = p_nextId s"
  "e_remain (p_entries (nextEntry s) j) = e_remain (p_entries s j)"
  "e_blockRemain (p_entries (nextEntry s) j) = e_blockRemain (p_entries s j)"
  "e_type (p_entries (nextEntry s) j) = e_type (p_entries s j)"
  "e_emittedEnd (p_entries (nextEntry s) j) = e_emittedEnd (p_entries s j)"
  "entry_core (p_entries (nextEntry s) j) = entry_core (p_entries s j)"
  "body_of i (p_events (nextEntry s)) = body_of i (p_events s)"
  "ends_of i (p_events (nextEntry s)) = ends_of i (p_events s)"
  by (simp_all add: nextEntry_def Let_def emit_ev_def)

lemma entry_end_frame [simp]:
  "p_state (entry_end i s) = p_state s"
  "p_writeEntry (entry_end i s) = p_writeEntry s"
  "p_buffer (entry_end i s) = p_buffer s"
  "p_meta (entry_end i s) = p_meta s"
  "p_ex (entry_end i s) = p_ex s"
  "p_gex (entry_end i s) = p_gex s"
  "p_ended (entry_end i s) = p_ended s"
  "p_unzip (entry_end i s) = p_unzip s"
  "p_nextId (entry_end i s) = p_nextId s"
  "e_remain (p_entries (entry_end i s) j) = e_remain (p_entries s j)"
  "e_blockRemain (p_entries (entry_end i s) j) = e_blockRemain (p_entries s j)"
  "e_type (p_entries (entry_end i s) j) = e_type (p_entries s j)"
  "entry_core (p_entries (entry_end i s) j) = entry_core (p_entries s j)"
  "body_of k (p_events (entry_end i s)) = body_of k (p_events s)"
  "ends_of k (p_events (entry_end i s)) = ends_of k (p_events s) + (if k = i then 1 else 0)"
  by (simp_all add: entry_end_def Let_def emit_ev_def upd_entry_def)

lemma consumeEntryBody_cases:
  assumes we: "p_writeEntry s = Some i"
  shows "consumeEntryBody s chunk =
     (let rem = e_remain (p_entries s i); br = e_blockRemain (p_entries s i);
          len = int (length chunk)
      in if len < rem then
           Inr (upd_entry i (\<lambda>e. e\<lparr>e_remain := e_remain e - len,
                                     e_blockRemain := e_blockRemain e - len\<rparr>)
                  (entry_write i chunk s), None)
         else if len < br then
           Inr (entry_end i
                  (upd_entry i (\<lambda>e. e\<lparr>e_remain := 0, e_blockRemain := e_blockRemain e - len\<rparr>)
                     (if rem \<noteq> 0 then entry_write i (js_slice_to rem chunk) s else s)), None)
         else
           Inr ((entry_end i (entry_write i (js_slice_to rem chunk) s))
                  \<lparr>p_state := Begin, p_writeEntry := None\<rparr>,
                Some (js_slice_from br chunk)))"
  using we
  by (simp add: consumeEntryBody_def consumeBodyChunk_def emit_data_def Let_def
        entry_write_def emit_ev_def)

lemma consumeEntryBody_spec_aux:
  assumes we: "p_writeEntry s = Some i"
      and r0: "0 \<le> e_remain (p_entries s i)"
      and rb: "e_remain (p_entries s i) \<le> e_blockRemain (p_entries s i)"
  shows "\<exists>s'. consumeEntryBody s chunk
             = Inr (s', if int (length chunk) < e_blockRemain (p_entries s i) then None
                        else Some (drop (nat (e_blockRemain (p_entries s i))) chunk))
    \<and> body_of i (p_events s')
        = body_of i (p_events s)
          @ take (nat (min (int (length chunk)) (e_remain (p_entries s i)))) chunk
    \<and> ends_of i (p_events s')
        = ends_of i (p_events s) + (if e_remain (p_entries s i) \<le> int (length chunk) then 1 else 0)
    \<and> (int (length chunk) < e_blockRemain (p_entries s i) \<longrightarrow>
          e_remain (p_entries s' i)
            = e_remain (p_entries s i) - min (int (length chunk)) (e_remain (p_entries s i))
          \<and> e_blockRemain (p_entries s' i) = e_blockRemain (p_entries s i) - int (length chunk)
          \<and> p_state s' = p_state s \<and> p_writeEntry s' = Some i)
    \<and> (e_blockRemain (p_entries s i) \<le> int (length chunk) \<longrightarrow>
          e_remain (p_entries s' i) = e_remain (p_entries s i)
          \<and> e_blockRemain (p_entries s' i) = e_blockRemain (p_entries s i)
          \<and> p_state s' = Begin \<and> p_writeEntry s' = None)"
proof -
  let ?rem = "e_remain (p_entries s i)" and ?br = "e_blockRemain (p_entries s i)"
  let ?len = "int (length chunk)"
  consider (part) "?len < ?rem" | (body) "?rem \<le> ?len" "?len < ?br" | (block) "?br \<le> ?len"
    using rb by linarith
  then show ?thesis
  proof cases
    case part
    then show ?thesis
      using we r0 rb
      by (simp add: consumeEntryBody_cases Let_def upd_entry_def entry_write_def emit_ev_def
            min_def)
  next
    case body
    then show ?thesis
      using we r0 rb
      by (simp add: consumeEntryBody_cases Let_def upd_entry_def entry_write_def emit_ev_def
            min_def js_slice_to_def)
  next
    case block
    then show ?thesis
      using we r0 rb
      by (simp add: consumeEntryBody_cases Let_def upd_entry_def entry_write_def emit_ev_def
            min_def js_slice_to_def js_slice_from_def)
  qed
qed




lemma consume_loop_short: "length c < 512 \<Longrightarrow> consume_loop env s c = Inr (s, Some c)"
  by (subst consume_loop.simps) simp

lemma consume_loop_begin:
  "p_state s = Begin \<Longrightarrow> length blk = 512 \<Longrightarrow>
   consume_loop env s (blk @ rest)
     = (case consumeHeader env s blk of Inl e \<Rightarrow> Inl e | Inr s1 \<Rightarrow> consume_loop env s1 rest)"
  by (subst consume_loop.simps) (simp split: sum.splits)

lemma consume_loop_body:
  "p_state s = Body \<Longrightarrow> 512 \<le> length c \<Longrightarrow>
   consume_loop env s c
     = (case consumeEntryBody s c of
          Inl e \<Rightarrow> Inl e
        | Inr (s1, None) \<Rightarrow> Inr (s1, None)
        | Inr (s1, Some c') \<Rightarrow> consume_loop env s1 c')"
  by (subst consume_loop.simps) simp

lemma consume_loop_meta:
  "p_state s = Meta \<Longrightarrow> 512 \<le> length c \<Longrightarrow>
   consume_loop env s c
     = (case consumeMeta env s c of
          Inl e \<Rightarrow> Inl e
        | Inr (s1, None) \<Rightarrow> Inr (s1, None)
        | Inr (s1, Some c') \<Rightarrow> consume_loop env s1 c')"
  by (subst consume_loop.simps) simp

lemma consumeHeader_invalid:
  "\<not> h_cksumValid (hdr env blk) \<Longrightarrow>
   consumeHeader env s blk = Inr (emit_ev (InvalidHeader (hdr env blk)) s)"
  by (simp add: consumeHeader_def)

lemma invalid_blocks_skipped:
  assumes "p_state s = Begin"
    and "\<forall>b\<in>set bs. length b = 512 \<and> \<not> h_cksumValid (hdr env b)"
  shows "consume_loop env s (concat bs @ rest)
         = consume_loop env
             (s\<lparr>p_events := p_events s @ map (\<lambda>b. InvalidHeader (hdr env b)) bs\<rparr>) rest"
  using assms
proof (induction bs arbitrary: s)
  case Nil
  then show ?case by simp
next
  case (Cons b bs)
  have "consume_loop env s (b @ concat bs @ rest)
        = consume_loop env (emit_ev (InvalidHeader (hdr env b)) s) (concat bs @ rest)"
    using Cons.prems by (simp add: consume_loop_begin consumeHeader_invalid)
  also have "\<dots> = consume_loop env
      ((emit_ev (InvalidHeader (hdr env b)) s)
         \<lparr>p_events := p_events (emit_ev (InvalidHeader (hdr env b)) s)
                        @ map (\<lambda>b. InvalidHeader (hdr env b)) bs\<rparr>) rest"
    using Cons.prems by (intro Cons.IH) (simp_all add: emit_ev_def)
  finally show ?case by (simp add: emit_ev_def)
qed

lemma detect_eq:
  assumes "2 \<le> length c"
  shows "detect c = (if take 2 c = gzipHeader then Undecided else Plain)"
proof -
  obtain a b r where c: "c = a # b # r"
    using assms by (cases c; cases "tl c") auto
  have "[0 ..< length gzipHeader] = [0, 1]"
    by (simp add: gzipHeader_def upt_rec)
  then show ?thesis
    by (auto simp: detect_def c gzipHeader_def)
qed

lemma new_parser_simps [simp]:
  "p_state new_parser = Begin" "p_buffer new_parser = None" "p_nextId new_parser = 0"
  "p_writeEntry new_parser = None" "p_readEntry new_parser = None" "p_queue new_parser = []"
  "p_meta new_parser = []" "p_ex new_parser = None" "p_gex new_parser = None"
  "p_ended new_parser = False" "p_unzip new_parser = Undecided" "p_events new_parser = []"
  by (simp_all add: new_parser_def)

lemma hdr_default [simp]:
  "hdr default_env = header_decode" "mkEntry default_env = read_entry"
  "paxParse default_env = pax_parse" "maxMetaEntrySize default_env = 1048576"
  "filter_opt default_env e = True" "inflate default_env w x y = []"
  by (simp_all add: default_env_def)

lemma gzip_not_fo [simp]:
  "''fo'' \<noteq> gzipHeader" "''Pa'' \<noteq> gzipHeader" "''./'' \<noteq> gzipHeader"
  "[CHR 0x00, CHR 0x00] \<noteq> gzipHeader" "length gzipHeader = 2"
  by (simp_all add: gzipHeader_def)

text \<open>
  Claim C5. In the begin state, a block of 512 bytes whose checksum is invalid makes
  \<open>consumeHeader\<close> emit \<open>invalidHeader\<close> and nothing else, the parser stays in the begin
  state, and the loop goes on with the bytes after the block: any run of invalid blocks is
  passed one block at a time, one signal each, and parsing continues with what follows.
\<close>

theorem invalid_header_continues:
  assumes "p_state s = Begin"
    and "\<forall>b\<in>set bs. length b = 512 \<and> \<not> h_cksumValid (hdr env b)"
  shows "(\<forall>b\<in>set bs. consumeHeader env s b = Inr (emit_ev (InvalidHeader (hdr env b)) s)
                     \<and> p_state (emit_ev (InvalidHeader (hdr env b)) s) = Begin)
         \<and> consume_loop env s (concat bs @ rest)
             = consume_loop env
                 (s\<lparr>p_events := p_events s @ map (\<lambda>b. InvalidHeader (hdr env b)) bs\<rparr>) rest
         \<and> p_state (s\<lparr>p_events := p_events s @ map (\<lambda>b. InvalidHeader (hdr env b)) bs\<rparr>)
             = Begin"
  using assms invalid_blocks_skipped [OF assms]
  by (simp add: consumeHeader_invalid emit_ev_def)

theorem invalid_header_continues_witness:
  "p_state new_parser = Begin
   \<and> length null_block = 512 \<and> \<not> h_cksumValid (hdr default_env null_block)
   \<and> consumeHeader default_env new_parser null_block
       = Inr (emit_ev (InvalidHeader (header_decode null_block)) new_parser)
   \<and> consume_loop default_env new_parser (concat [null_block, null_block] @ [])
       = Inr (new_parser\<lparr>p_events := [InvalidHeader (header_decode null_block),
                                         InvalidHeader (header_decode null_block)]\<rparr>, Some [])"
proof -
  have h1: "p_state new_parser = Begin" by simp
  have v: "\<not> h_cksumValid (hdr default_env null_block)" by (simp add: decode_null_block)
  have h2: "\<forall>b\<in>set [null_block, null_block].
              length b = 512 \<and> \<not> h_cksumValid (hdr default_env b)"
    using v by simp
  show ?thesis
    using h1 v invalid_header_continues [OF h1 h2, of "[]"]
    by (simp add: consume_loop_short)
qed

text \<open>
  Claim C7, at a Pax header that announces a body of 2000000 bytes, above the default
  limit of 1 MiB: \<open>consumeHeader\<close> emits \<open>metaEntryTooLarge\<close>, marks the entry ignored, and
  then throws a \<open>ReferenceError\<close> out of \<open>write\<close>, the parser being left in the begin
  state with the entry's body unread. It neither enters the ignore state nor goes on.
\<close>

theorem meta_too_large_throws:
  "(case parser_write default_env new_parser (Some block_bigmeta) of
      Inl (err, s') \<Rightarrow>
        err = ReferenceError ''ignore is not defined'' \<and> p_state s' = Begin
        \<and> p_events s' = [MetaEntryTooLarge 0] \<and> e_ignore (p_entries s' 0)
        \<and> p_writeEntry s' = Some 0 \<and> p_buffer s' = None
    | Inr r \<Rightarrow> False)"
proof -
  have t: "take 2 block_bigmeta = ''Pa''"
    using block_bigmeta_start [of "[]"] by simp
  have l: "consume_loop default_env (new_parser\<lparr>p_unzip := Plain\<rparr>) (block_bigmeta @ [])
           = (case consumeHeader default_env (new_parser\<lparr>p_unzip := Plain\<rparr>) block_bigmeta of
                Inl e \<Rightarrow> Inl e
              | Inr s1 \<Rightarrow> consume_loop default_env s1 [])"
    by (rule consume_loop_begin) simp_all
  have h: "consumeHeader default_env (new_parser\<lparr>p_unzip := Plain\<rparr>) block_bigmeta
           = Inl (ReferenceError ''ignore is not defined'',
                  upd_entry 0 (\<lambda>e. e\<lparr>e_ignore := True\<rparr>)
                    (emit_ev (MetaEntryTooLarge 0)
                       (new_parser\<lparr>p_unzip := Plain,
                          p_entries := (p_entries new_parser)
                            (0 := read_entry (header_decode block_bigmeta) None None),
                          p_nextId := Suc 0, p_writeEntry := Some 0\<rparr>)))"
    by (simp add: consumeHeader_def decode_block_bigmeta read_entry_def is_meta_type_def
          over_num_def ext_get_def Let_def)
  show ?thesis
    using l
    by (simp add: parser_write_def detect_eq t consumeChunk_def h
          upd_entry_def emit_ev_def Let_def)
qed

lemma same_mode_refl [simp]: "same_mode s s"
  by (simp add: same_mode_def)


lemma same_mode_upd [simp]:
  "same_mode s (t\<lparr>p_buffer := b\<rparr>) = same_mode s t"
  "same_mode s (t\<lparr>p_state := m\<rparr>) = same_mode s t"
  "same_mode s (t\<lparr>p_writeEntry := w\<rparr>) = same_mode s t"
  "same_mode s (t\<lparr>p_ex := x\<rparr>) = same_mode s t"
  "same_mode s (t\<lparr>p_gex := x\<rparr>) = same_mode s t"
  "same_mode s (t\<lparr>p_meta := y\<rparr>) = same_mode s t"
  "same_mode s (t\<lparr>p_queue := q\<rparr>) = same_mode s t"
  "same_mode s (t\<lparr>p_nextId := n\<rparr>) = same_mode s t"
  "same_mode s (t\<lparr>p_entries := es\<rparr>) = same_mode s t"
  "same_mode s (emit_ev ev t) = same_mode s t"
  "same_mode s (upd_entry i f t) = same_mode s t"
  "same_mode s (entry_end i t) = same_mode s t"
  "same_mode s (entry_write i d t) = same_mode s t"
  "same_mode s (nextEntry t) = same_mode s t"
  by (simp_all add: same_mode_def emit_ev_def upd_entry_def entry_write_def)









lemma buffer_None_upd: "p_buffer s = None \<Longrightarrow> s\<lparr>p_buffer := None\<rparr> = s"
  by (cases s) simp

lemma parser_write_undecided:
  assumes u: "p_unzip s = Undecided"
    and acc: "acc = (case p_buffer s of Some b \<Rightarrow> b @ c | None \<Rightarrow> c)"
  shows "parser_write env s (Some c) =
     (if length acc < 2 then Inr (s\<lparr>p_buffer := Some acc\<rparr>, True)
      else if take 2 acc = gzipHeader then
        (case consume_all env (s\<lparr>p_buffer := None, p_unzip := Gunzip [Some acc]\<rparr>)
                (inflate env [] (p_ended s) (Some acc)) of
           Inl e \<Rightarrow> Inl e
         | Inr s2 \<Rightarrow> Inr (s2, write_ret s2))
      else
        (case consumeChunk env (s\<lparr>p_buffer := None, p_unzip := Plain\<rparr>) (Some acc) of
           Inl e \<Rightarrow> Inl e
         | Inr s2 \<Rightarrow> Inr (s2, write_ret s2)))"
proof (cases "p_buffer s")
  case None
  have e: "\<And>X. s\<lparr>p_buffer := None, p_unzip := X\<rparr> = s\<lparr>p_unzip := X\<rparr>"
    by (subst buffer_None_upd [OF None]) simp
  from None show ?thesis
    using u acc
    by (simp add: parser_write_def Let_def detect_eq e)
next
  case (Some b)
  then show ?thesis
    using u acc
    by (simp add: parser_write_def Let_def detect_eq)
qed

lemma parser_write_plain:
  "p_unzip s = Plain \<Longrightarrow>
   parser_write env s ch =
     (case consumeChunk env s ch of Inl e \<Rightarrow> Inl e | Inr s2 \<Rightarrow> Inr (s2, write_ret s2))"
  by (cases ch) (simp_all add: parser_write_def)











lemma consumeBodyChunk_keeps:
  "consumeBodyChunk s k c = Inr (s', r) \<Longrightarrow>
     p_ex s' = p_ex s \<and> p_gex s' = p_gex s
     \<and> e_type (p_entries s' j) = e_type (p_entries s j)
     \<and> (r = None \<longleftrightarrow> p_writeEntry s' \<noteq> None)
     \<and> p_buffer s' = p_buffer s \<and> p_ended s' = p_ended s \<and> p_unzip s' = p_unzip s"
  by (auto simp: consumeBodyChunk_def emit_data_def entry_write_def Let_def emit_ev_def
        upd_entry_def split: if_splits option.splits sink.splits sum.splits)





lemma header_longname:
  "consumeHeader default_env (new_parser\<lparr>p_unzip := Plain\<rparr>) block_longname = Inr meta_state"
  by (simp add: consumeHeader_def decode_block_longname read_entry_def is_meta_type_def
        over_num_def ext_get_def Let_def meta_state_def new_parser_def)






lemma header_foo:
  "\<exists>s1. consumeHeader default_env (new_parser\<lparr>p_buffer := None, p_unzip := Plain\<rparr>) block_foo
           = Inr s1
        \<and> p_state s1 = Body \<and> p_writeEntry s1 = Some 0
        \<and> e_remain (p_entries s1 0) = 1000 \<and> e_blockRemain (p_entries s1 0) = 1024
        \<and> p_events s1 = [EntryEv 0, Drain] \<and> p_buffer s1 = None \<and> \<not> p_ended s1
        \<and> p_unzip s1 = Plain"
  by (simp add: consumeHeader_def decode_block_foo read_entry_def is_meta_type_def
        over_num_def over_str_def over_opt_def ext_get_def Let_def nextEntry_def emit_ev_def
        upd_entry_def)

lemma chunk_starts:
  "take 2 (chunk1 @ chunk2) = ''fo''" "take 2 chunk1 = ''fo''"
  "2 \<le> length (chunk1 @ chunk2)" "2 \<le> length chunk1"
  using block_foo_start [of "replicate 600 (CHR ''a'') @ chunk2"]
    block_foo_start [of "replicate 600 (CHR ''a'')"]
  by (simp_all add: chunk1_def)

lemma single_write:
  "\<exists>s. write_all default_env new_parser [chunk1 @ chunk2] = Inr s
       \<and> body_of 0 (p_events s) = replicate 1000 (CHR ''a'')
       \<and> ends_of 0 (p_events s) = 1 \<and> p_state s = Begin \<and> p_buffer s = None"
proof -
  let ?s0 = "new_parser\<lparr>p_buffer := None, p_unzip := Plain\<rparr>"
  let ?R = "replicate 600 (CHR ''a'') @ chunk2"
  obtain s1 where h: "consumeHeader default_env ?s0 block_foo = Inr s1"
    and s1: "p_state s1 = Body" "p_writeEntry s1 = Some 0" "e_remain (p_entries s1 0) = 1000"
      "e_blockRemain (p_entries s1 0) = 1024" "p_events s1 = [EntryEv 0, Drain]"
      "p_buffer s1 = None" "\<not> p_ended s1" "p_unzip s1 = Plain"
    using header_foo by blast
  have len: "length ?R = 1024" by (simp add: chunk2_def)
  obtain s2 where b: "consumeEntryBody s1 ?R = Inr (s2, Some [])"
    and s2: "body_of 0 (p_events s2) = replicate 1000 (CHR ''a'')"
      "ends_of 0 (p_events s2) = 1" "p_state s2 = Begin"
    using consumeEntryBody_spec_aux [of s1 0 ?R] s1 len
    by (auto simp: chunk2_def replicate_add [symmetric])
  have f: "p_buffer s2 = None" "\<not> p_ended s2"
    using consumeBodyChunk_keeps [OF b [unfolded consumeEntryBody_def], of 0] s1 by simp_all
  have l2: "consume_loop default_env s1 ?R = Inr (s2, Some [])"
    using s1 len b by (simp add: consume_loop_body consume_loop_short)
  have l1: "consume_loop default_env ?s0 (block_foo @ ?R) = Inr (s2, Some [])"
    using h l2 by (simp add: consume_loop_begin)
  have c: "consumeChunk default_env ?s0 (Some (chunk1 @ chunk2)) = Inr s2"
    using l1 f by (simp add: consumeChunk_def chunk1_def)
  have w: "parser_write default_env new_parser (Some (chunk1 @ chunk2)) = Inr (s2, True)"
    using c s2 chunk_starts
    by (simp add: parser_write_undecided [where acc = "chunk1 @ chunk2"] write_ret_def)
  show ?thesis using w s2 f by simp
qed

lemma chunked_write:
  "\<exists>s. write_all default_env new_parser [chunk1, chunk2] = Inr s
       \<and> body_of 0 (p_events s) = replicate 600 (CHR ''a'')
       \<and> ends_of 0 (p_events s) = 0 \<and> p_state s = Body \<and> p_buffer s = Some chunk2
       \<and> (\<exists>s' r. end_parser default_env s None = Inr (s', r)
              \<and> body_of 0 (p_events s') = replicate 600 (CHR ''a'')
              \<and> ends_of 0 (p_events s') = 0 \<and> last (p_events s') = EndEv)"
proof -
  let ?s0 = "new_parser\<lparr>p_buffer := None, p_unzip := Plain\<rparr>"
  let ?R = "replicate 600 (CHR ''a'')"
  obtain s1 where h: "consumeHeader default_env ?s0 block_foo = Inr s1"
    and s1: "p_state s1 = Body" "p_writeEntry s1 = Some 0" "e_remain (p_entries s1 0) = 1000"
      "e_blockRemain (p_entries s1 0) = 1024" "p_events s1 = [EntryEv 0, Drain]"
      "p_buffer s1 = None" "\<not> p_ended s1" "p_unzip s1 = Plain"
    using header_foo by blast
  obtain s2 where b: "consumeEntryBody s1 ?R = Inr (s2, None)"
    and s2: "body_of 0 (p_events s2) = replicate 600 (CHR ''a'')"
      "ends_of 0 (p_events s2) = 0" "p_state s2 = Body"
    using consumeEntryBody_spec_aux [of s1 0 ?R] s1 by auto
  have f: "p_buffer s2 = None" "\<not> p_ended s2" "p_unzip s2 = Plain"
    using consumeBodyChunk_keeps [OF b [unfolded consumeEntryBody_def], of 0] s1 by simp_all
  have l2: "consume_loop default_env s1 ?R = Inr (s2, None)"
    using s1 b by (simp add: consume_loop_body)
  have l1: "consume_loop default_env ?s0 (block_foo @ ?R) = Inr (s2, None)"
    using h l2 by (simp add: consume_loop_begin)
  have c: "consumeChunk default_env ?s0 (Some chunk1) = Inr s2"
    using l1 f by (simp add: consumeChunk_def chunk1_def)
  have w1: "parser_write default_env new_parser (Some chunk1) = Inr (s2, write_ret s2)"
    using c chunk_starts by (simp add: parser_write_undecided [where acc = chunk1])
  have len2: "length chunk2 = 424" by (simp add: chunk2_def)
  have c2: "consumeChunk default_env s2 (Some chunk2) = Inr (s2\<lparr>p_buffer := Some chunk2\<rparr>)"
    using f len2 by (auto simp: consumeChunk_def consume_loop_short)
  have w2: "parser_write default_env s2 (Some chunk2)
            = Inr (s2\<lparr>p_buffer := Some chunk2\<rparr>, write_ret (s2\<lparr>p_buffer := Some chunk2\<rparr>))"
    using f c2 by (simp add: parser_write_plain)
  have e: "end_parser default_env (s2\<lparr>p_buffer := Some chunk2\<rparr>) None
           = Inr (emit_ev EndEv (s2\<lparr>p_buffer := Some chunk2, p_ended := True\<rparr>),
                  write_ret (emit_ev EndEv (s2\<lparr>p_buffer := Some chunk2, p_ended := True\<rparr>)))"
    using f s2
    by (simp add: end_parser_def parser_write_plain consumeChunk_def)
  show ?thesis using w1 w2 e s2 by (simp add: emit_ev_def)
qed

text \<open>
  Claim C1, at an archive of one file of 1000 bytes. Written in one piece, the entry
  receives its 1000 bytes and is ended. Written as the first 1112 bytes and then the last
  424, the entry receives 600 bytes and is never ended: the second piece is shorter than
  512 bytes and stays in the buffer, also after \<open>end()\<close>, which emits \<open>end\<close> all the same.
\<close>

theorem chunking_changes_result:
  "(case write_all default_env new_parser [chunk1 @ chunk2] of
      Inl e \<Rightarrow> False
    | Inr s \<Rightarrow>
        body_of 0 (p_events s) = replicate 1000 (CHR ''a'') \<and> ends_of 0 (p_events s) = 1
        \<and> p_state s = Begin \<and> p_buffer s = None)
   \<and> (case write_all default_env new_parser [chunk1, chunk2] of
        Inl e \<Rightarrow> False
      | Inr s \<Rightarrow>
          body_of 0 (p_events s) = replicate 600 (CHR ''a'') \<and> ends_of 0 (p_events s) = 0
          \<and> p_state s = Body \<and> p_buffer s = Some chunk2
          \<and> (case end_parser default_env s None of
                Inl e \<Rightarrow> False
              | Inr (s', r) \<Rightarrow>
                  body_of 0 (p_events s') = replicate 600 (CHR ''a'')
                  \<and> ends_of 0 (p_events s') = 0 \<and> last (p_events s') = EndEv))"
proof -
  obtain s where 1: "write_all default_env new_parser [chunk1 @ chunk2] = Inr s"
    "body_of 0 (p_events s) = replicate 1000 (CHR ''a'')" "ends_of 0 (p_events s) = 1"
    "p_state s = Begin" "p_buffer s = None"
    using single_write by blast
  obtain t t' r where 2: "write_all default_env new_parser [chunk1, chunk2] = Inr t"
    "body_of 0 (p_events t) = replicate 600 (CHR ''a'')" "ends_of 0 (p_events t) = 0"
    "p_state t = Body" "p_buffer t = Some chunk2"
    "end_parser default_env t None = Inr (t', r)"
    "body_of 0 (p_events t') = replicate 600 (CHR ''a'')"
    "ends_of 0 (p_events t') = 0" "last (p_events t') = EndEv"
    using chunked_write by blast
  show ?thesis unfolding 1(1) 2(1) by (simp add: 1 2)
qed

end
